theory Spec2Isabelle
  imports Main
begin

section \<open>JavaScript values\<close>

text \<open>
  Everything the library handles at run time is a JavaScript value: the parsed JSON of a
  response, the option objects of a call, the entity objects a constructor builds and
  the value a method resolves with. Numbers are modelled as integers (only zero versus
  non-zero matters below). An object is its list of properties in insertion order.
\<close>

datatype jsval =
    JUndefined
  | JNull
  | JBool bool
  | JNum int
  | JStr string
  | JArr "jsval list"
  | JObj "(string \<times> jsval) list"

type_synonym obj = "(string \<times> jsval) list"

text \<open>Truthiness, as \<open>!x\<close>, \<open>if (x)\<close> and \<open>x || y\<close> test it.\<close>

fun truthy :: "jsval \<Rightarrow> bool" where
  "truthy JUndefined = False"
| "truthy JNull = False"
| "truthy (JBool b) = b"
| "truthy (JNum n) = (n \<noteq> 0)"
| "truthy (JStr s) = (s \<noteq> [])"
| "truthy (JArr xs) = True"
| "truthy (JObj ps) = True"

text \<open>
  What can be thrown or be the reason of a rejection: any value the HTTP layer rejects
  with (or a message wrapped by an error class), the \<open>TypeError\<close> of the language,
  and the two error classes of the library.
\<close>

datatype error =
    JsError jsval
  | TypeError
  | MissingParamError string
  | UnexpectedError error

text \<open>Reading a property of an object that is known to be one: \<open>o.k\<close>.\<close>

definition get_field :: "obj \<Rightarrow> string \<Rightarrow> jsval" where
  "get_field ps k = (case map_of ps k of None \<Rightarrow> JUndefined | Some v \<Rightarrow> v)"

text \<open>
  \<open>v.k\<close> for any value: a property of \<open>undefined\<close> or \<open>null\<close> throws, an object
  gives the property or \<open>undefined\<close>, every other value has none of the properties
  read below.
\<close>

fun field_of :: "jsval \<Rightarrow> string \<Rightarrow> jsval" where
  "field_of (JObj ps) k = get_field ps k"
| "field_of v k = JUndefined"

definition nullish :: "jsval \<Rightarrow> bool" where
  "nullish v = (v = JUndefined \<or> v = JNull)"

definition getprop :: "jsval \<Rightarrow> string \<Rightarrow> error + jsval" where
  "getprop v k = (if nullish v then Inl TypeError else Inr (field_of v k))"

text \<open>\<open>o[k] = v\<close>: an existing property keeps its place, a new one goes last.\<close>

fun set_field :: "string \<Rightarrow> jsval \<Rightarrow> obj \<Rightarrow> obj" where
  "set_field k v [] = [(k, v)]"
| "set_field k v (p # ps) = (if fst p = k then (k, v) # ps else p # set_field k v ps)"

text \<open>\<open>delete o[k]\<close>.\<close>

definition delete_field :: "string \<Rightarrow> obj \<Rightarrow> obj" where
  "delete_field k ps = filter (\<lambda>p. fst p \<noteq> k) ps"

text \<open>\<open>{...target, ...src}\<close>: the properties of \<open>src\<close> are assigned one by one.\<close>

definition spread :: "obj \<Rightarrow> obj \<Rightarrow> obj" where
  "spread src target = fold (\<lambda>p acc. set_field (fst p) (snd p) acc) src target"

text \<open>Spreading an optional object: \<open>...undefined\<close> adds nothing.\<close>

definition spread_opt :: "obj option \<Rightarrow> obj \<Rightarrow> obj" where
  "spread_opt src target = (case src of None \<Rightarrow> target | Some ps \<Rightarrow> spread ps target)"

text \<open>\<open>xs.join(',')\<close> on an array of strings.\<close>

fun join :: "string list \<Rightarrow> string" where
  "join [] = []"
| "join [x] = x"
| "join (x # y # ys) = x @ '','' @ join (y # ys)"

text \<open>A callback run over a list stops at the first throw.\<close>

fun map_throw :: "('a \<Rightarrow> error + 'b) \<Rightarrow> 'a list \<Rightarrow> error + 'b list" where
  "map_throw f [] = Inr []"
| "map_throw f (x # xs) =
     (case f x of
        Inl e \<Rightarrow> Inl e
      | Inr y \<Rightarrow> (case map_throw f xs of Inl e \<Rightarrow> Inl e | Inr ys \<Rightarrow> Inr (y # ys)))"

text \<open>\<open>v.map(f)\<close>: only an array has \<open>map\<close>; on anything else the call throws.\<close>

fun js_map :: "(jsval \<Rightarrow> error + 'b) \<Rightarrow> jsval \<Rightarrow> error + 'b list" where
  "js_map f (JArr xs) = map_throw f xs"
| "js_map f v = Inl TypeError"

text \<open>\<open>handleError(e) || d\<close>: the handler throws, or its value is kept when truthy.\<close>

definition or_default :: "error + jsval \<Rightarrow> jsval \<Rightarrow> error + jsval" where
  "or_default h d =
     (case h of Inl e \<Rightarrow> Inl e | Inr v \<Rightarrow> Inr (if truthy v then v else d))"

section \<open>The playlist manager\<close>

text \<open>
  \<open>this.fetch(path, options)\<close> of the base manager is the HTTP layer. It is not part of
  the sources at hand, so it is a parameter: a function from the request to the parsed
  response or to the error the promise rejects with. The same holds for \<open>handleError\<close>
  (module Errors) and for the constructors of the structures.
\<close>

record request =
  req_path :: string
  req_method :: "string option"
  req_headers :: "obj option"
  req_params :: "obj option"
  req_body :: "jsval option"

record env =
  fetch :: "request \<Rightarrow> error + jsval"
  handleError :: "error \<Rightarrow> error + jsval"
  Playlist :: "jsval \<Rightarrow> error + obj"
  PlaylistTrack :: "jsval \<Rightarrow> error + jsval"

text \<open>
  Modelled from the spec: the class of \<open>client.cache.playlists\<close> is not part of the
  sources at hand. The spec calls the cache an id-to-object map, and the manager uses it
  through \<open>get(id)\<close> and \<open>set(id, value)\<close> only, so it is a map from ids to playlist
  objects. With it the client carries the flag \<open>client.cacheOptions.cachePlaylists\<close>.
\<close>

record client =
  cachePlaylists :: bool
  cache_playlists :: "jsval \<rightharpoonup> obj"

text \<open>
  What a call leaves behind: the value its promise resolves with or the error it rejects
  with, the cache map afterwards, the requests handed to the HTTP layer in order, and the
  playlists built from a response that was parsed to the end (\<open>fresh\<close>; a ghost field
  used to speak about the history of the cache).
\<close>

record outcome =
  result :: "error + jsval"
  cache :: "jsval \<rightharpoonup> obj"
  requests :: "request list"
  fresh :: "obj list"

definition get_request :: "string \<Rightarrow> request" where
  "get_request p =
     \<lparr>req_path = p, req_method = None, req_headers = None, req_params = None,
      req_body = None\<rparr>"

definition empty_paging :: jsval where
  "empty_paging =
     JObj [(''limit'', JNum 0), (''offset'', JNum 0), (''total'', JNum 0),
           (''items'', JArr [])]"

definition paging :: "jsval \<Rightarrow> jsval list \<Rightarrow> jsval" where
  "paging data xs =
     JObj [(''limit'', field_of data ''limit''), (''offset'', field_of data ''offset''),
           (''total'', field_of data ''total''), (''items'', JArr xs)]"

text \<open>\<open>cache.playlists.set(p.id, p)\<close> for every playlist, first to last.\<close>

definition cache_all :: "obj list \<Rightarrow> (jsval \<rightharpoonup> obj) \<Rightarrow> (jsval \<rightharpoonup> obj)" where
  "cache_all ps c = fold (\<lambda>p m. m(get_field p ''id'' \<mapsto> p)) ps c"

subsection \<open>search\<close>

definition search_request :: "string \<Rightarrow> obj option \<Rightarrow> request" where
  "search_request query options =
     (get_request ''/search'')
       \<lparr>req_params :=
          Some (set_field ''q'' (JStr query)
                 (set_field ''type'' (JStr ''playlist'') (spread_opt options [])))\<rparr>"

text \<open>The body of the \<open>try\<close> block: the value or the thrown error, the cache, the playlists.\<close>

definition search_try ::
  "env \<Rightarrow> client \<Rightarrow> request \<Rightarrow> (error + jsval) \<times> (jsval \<rightharpoonup> obj) \<times> obj list" where
  "search_try env cl req =
     (case fetch env req of
        Inl e \<Rightarrow> (Inl e, cache_playlists cl, [])
      | Inr res \<Rightarrow>
     (case getprop res ''playlists'' of
        Inl e \<Rightarrow> (Inl e, cache_playlists cl, [])
      | Inr data \<Rightarrow>
     (case getprop data ''items'' of
        Inl e \<Rightarrow> (Inl e, cache_playlists cl, [])
      | Inr its \<Rightarrow>
     (case js_map (Playlist env) its of
        Inl e \<Rightarrow> (Inl e, cache_playlists cl, [])
      | Inr playlists \<Rightarrow>
          (Inr (paging data (map JObj playlists)),
           (if cachePlaylists cl then cache_all playlists (cache_playlists cl)
            else cache_playlists cl),
           playlists)))))"

definition search :: "env \<Rightarrow> client \<Rightarrow> string \<Rightarrow> obj option \<Rightarrow> outcome" where
  "search env cl query options =
     (let req = search_request query options in
      case search_try env cl req of
        (Inr v, c, ps) \<Rightarrow> \<lparr>result = Inr v, cache = c, requests = [req], fresh = ps\<rparr>
      | (Inl e, c, ps) \<Rightarrow>
          \<lparr>result = or_default (handleError env e) empty_paging, cache = c,
           requests = [req], fresh = ps\<rparr>)"

subsection \<open>get\<close>

definition playlist_request :: "string \<Rightarrow> string \<Rightarrow> request" where
  "playlist_request ident market =
     (get_request (''/playlists/'' @ ident))
       \<lparr>req_params := Some [(''market'', JStr market)]\<rparr>"

text \<open>
  The defaults of the two optional parameters: \<open>force = !cachePlaylists\<close>,
  \<open>market = 'US'\<close>.
\<close>

definition force_of :: "client \<Rightarrow> bool option \<Rightarrow> bool" where
  "force_of cl force = (case force of None \<Rightarrow> \<not> cachePlaylists cl | Some f \<Rightarrow> f)"

definition market_of :: "string option \<Rightarrow> string" where
  "market_of market = (case market of None \<Rightarrow> ''US'' | Some m \<Rightarrow> m)"

definition cached :: "client \<Rightarrow> string \<Rightarrow> bool \<Rightarrow> obj option" where
  "cached cl ident force = (if force then None else cache_playlists cl (JStr ident))"

definition get_fetch :: "env \<Rightarrow> client \<Rightarrow> request \<Rightarrow> outcome" where
  "get_fetch env cl req =
     (case fetch env req of
        Inl e \<Rightarrow>
          \<lparr>result = handleError env e, cache = cache_playlists cl, requests = [req],
           fresh = []\<rparr>
      | Inr res \<Rightarrow>
     (case Playlist env res of
        Inl e \<Rightarrow>
          \<lparr>result = handleError env e, cache = cache_playlists cl, requests = [req],
           fresh = []\<rparr>
      | Inr playlist \<Rightarrow>
          \<lparr>result = Inr (JObj playlist),
           cache = (if cachePlaylists cl
                    then (cache_playlists cl)(get_field playlist ''id'' \<mapsto> playlist)
                    else cache_playlists cl),
           requests = [req], fresh = [playlist]\<rparr>))"

definition get ::
  "env \<Rightarrow> client \<Rightarrow> string \<Rightarrow> bool option \<Rightarrow> string option \<Rightarrow> outcome" where
  "get env cl ident force market =
     (case cached cl ident (force_of cl force) of
        Some existing \<Rightarrow>
          \<lparr>result = Inr (JObj existing), cache = cache_playlists cl, requests = [],
           fresh = []\<rparr>
      | None \<Rightarrow> get_fetch env cl (playlist_request ident (market_of market)))"

subsection \<open>The calls that only fetch\<close>

text \<open>
  \<open>try { body } catch (e) { handler }\<close> and the sequencing of two steps that may throw.
\<close>

definition try_catch :: "error + jsval \<Rightarrow> (error \<Rightarrow> error + jsval) \<Rightarrow> error + jsval" where
  "try_catch body handler = (case body of Inl e \<Rightarrow> handler e | Inr v \<Rightarrow> Inr v)"

definition and_then :: "error + 'a \<Rightarrow> ('a \<Rightarrow> error + 'b) \<Rightarrow> error + 'b" where
  "and_then r f = (case r of Inl e \<Rightarrow> Inl e | Inr v \<Rightarrow> f v)"

text \<open>A call that sends one request and leaves the cache alone.\<close>

definition fetched :: "client \<Rightarrow> request \<Rightarrow> error + jsval \<Rightarrow> outcome" where
  "fetched cl req r =
     \<lparr>result = r, cache = cache_playlists cl, requests = [req], fresh = []\<rparr>"

definition tracks_request :: "string \<Rightarrow> obj option \<Rightarrow> request" where
  "tracks_request ident options =
     (get_request (''/playlists/'' @ ident @ ''/tracks''))
       \<lparr>req_params :=
          Some (case options of None \<Rightarrow> [(''market'', JStr ''US'')] | Some ps \<Rightarrow> ps)\<rparr>"

definition getTracks :: "env \<Rightarrow> client \<Rightarrow> string \<Rightarrow> obj option \<Rightarrow> outcome" where
  "getTracks env cl ident options =
     (let req = tracks_request ident options in
      fetched cl req
        (try_catch
           (and_then (fetch env req) (\<lambda>data.
            and_then (getprop data ''items'') (\<lambda>its.
            and_then (js_map (PlaylistTrack env) its) (\<lambda>tracks.
            Inr (paging data tracks)))))
           (\<lambda>e. or_default (handleError env e) empty_paging)))"

definition images_request :: "string \<Rightarrow> request" where
  "images_request ident = get_request (''/playlists/'' @ ident @ ''/images'')"

definition getImages :: "env \<Rightarrow> client \<Rightarrow> string \<Rightarrow> outcome" where
  "getImages env cl ident =
     (let req = images_request ident in
      fetched cl req
        (try_catch (fetch env req) (\<lambda>e. or_default (handleError env e) (JArr []))))"

definition follows_request :: "string \<Rightarrow> string list \<Rightarrow> request" where
  "follows_request playlistID ids =
     (get_request (''/playlists/'' @ playlistID @ ''/followers/contains''))
       \<lparr>req_params := Some [(''ids'', JStr (join ids))]\<rparr>"

definition userFollows :: "env \<Rightarrow> client \<Rightarrow> string \<Rightarrow> string list \<Rightarrow> outcome" where
  "userFollows env cl playlistID ids =
     (let req = follows_request playlistID ids in
      fetched cl req
        (try_catch (fetch env req) (\<lambda>e. or_default (handleError env e) (JArr []))))"

definition add_request :: "string \<Rightarrow> string list \<Rightarrow> obj option \<Rightarrow> request" where
  "add_request ident uris options =
     (get_request (''/playlists/'' @ ident @ ''/tracks''))
       \<lparr>req_method := Some ''POST'',
        req_params := Some (set_field ''uris'' (JStr (join uris)) (spread_opt options []))\<rparr>"

definition addItems ::
  "env \<Rightarrow> client \<Rightarrow> string \<Rightarrow> string list \<Rightarrow> obj option \<Rightarrow> outcome" where
  "addItems env cl ident uris options =
     (let req = add_request ident uris options in
      fetched cl req
        (try_catch
           (and_then (fetch env req) (\<lambda>res. getprop res ''snapshot_id''))
           (\<lambda>e. or_default (handleError env e) JNull)))"

text \<open>
  \<open>Object.keys(opts).forEach(x => !opts[x] ? delete opts[x] : null)\<close>: the keys are
  taken once, then each key whose value is falsy is deleted.
\<close>

definition prune :: "obj \<Rightarrow> obj" where
  "prune opts =
     fold (\<lambda>x acc. if \<not> truthy (get_field acc x) then delete_field x acc else acc)
       (map fst opts) opts"

definition json_headers :: obj where
  "json_headers = [(''Content-Type'', JStr ''application/json'')]"

text \<open>
  The options of \<open>reorderItems\<close> are an object with the optional fields \<open>rangeStart\<close>,
  \<open>insertBefore\<close>, \<open>rangeLength\<close> and \<open>snapshotID\<close>; it defaults to \<open>{}\<close>.
\<close>

definition reorder_opts :: "obj option \<Rightarrow> obj" where
  "reorder_opts options =
     (let opts = (case options of None \<Rightarrow> [] | Some ps \<Rightarrow> ps) in
      [(''range_start'', get_field opts ''rangeStart''),
       (''insert_before'', get_field opts ''insertBefore''),
       (''range_length'', get_field opts ''rangeLength''),
       (''snapshot_id'', get_field opts ''snapshotID'')])"

definition reorder_request :: "string \<Rightarrow> string list \<Rightarrow> obj option \<Rightarrow> request" where
  "reorder_request ident uris options =
     (get_request (''/playlists/'' @ ident @ ''/tracks''))
       \<lparr>req_method := Some ''PUT'',
        req_headers := Some json_headers,
        req_body :=
          Some (JObj (set_field ''uris'' (JArr (map JStr uris))
                        (spread (prune (reorder_opts options)) [])))\<rparr>"

definition reorderItems ::
  "env \<Rightarrow> client \<Rightarrow> string \<Rightarrow> string list \<Rightarrow> obj option \<Rightarrow> outcome" where
  "reorderItems env cl ident uris options =
     (let req = reorder_request ident uris options in
      fetched cl req
        (try_catch
           (and_then (fetch env req) (\<lambda>res. getprop res ''snapshot_id''))
           (\<lambda>e. or_default (handleError env e) JNull)))"

definition remove_opts :: "string option \<Rightarrow> obj" where
  "remove_opts snapshotID =
     [(''snapshot_id'', (case snapshotID of None \<Rightarrow> JUndefined | Some s \<Rightarrow> JStr s))]"

definition remove_request :: "string \<Rightarrow> string list \<Rightarrow> string option \<Rightarrow> request" where
  "remove_request ident uris snapshotID =
     (get_request (''/playlists/'' @ ident @ ''/tracks''))
       \<lparr>req_method := Some ''DELETE'',
        req_headers := Some json_headers,
        req_body :=
          Some (JObj (set_field ''tracks'' (JArr (map JStr uris))
                        (spread (prune (remove_opts snapshotID)) [])))\<rparr>"

definition removeItems ::
  "env \<Rightarrow> client \<Rightarrow> string \<Rightarrow> string list \<Rightarrow> string option \<Rightarrow> outcome" where
  "removeItems env cl ident uris snapshotID =
     (let req = remove_request ident uris snapshotID in
      fetched cl req
        (try_catch
           (and_then (fetch env req) (\<lambda>res. getprop res ''snapshot_id''))
           (\<lambda>e. or_default (handleError env e) JNull)))"

definition upload_request :: "string \<Rightarrow> string \<Rightarrow> request" where
  "upload_request ident img =
     (get_request (''/playlists/'' @ ident @ ''/images''))
       \<lparr>req_method := Some ''PUT'',
        req_headers := Some [(''Content-Type'', JStr ''image/jpeg'')],
        req_body := Some (JStr img)\<rparr>"

definition uploadImage :: "env \<Rightarrow> client \<Rightarrow> string \<Rightarrow> string \<Rightarrow> outcome" where
  "uploadImage env cl ident img =
     (let req = upload_request ident img in
      fetched cl req
        (try_catch
           (and_then (fetch env req) (\<lambda>res. Inr (JBool True)))
           (\<lambda>e. or_default (handleError env e) (JBool False))))"

subsection \<open>The older playlist manager\<close>

text \<open>
  The second manager in the sources has three methods. Its \<open>get\<close> and its \<open>getImages\<close>
  are written out again from its own text; its \<open>getTracks\<close> resolves with the array of
  tracks instead of a paging object.
\<close>

definition get_old ::
  "env \<Rightarrow> client \<Rightarrow> string \<Rightarrow> bool option \<Rightarrow> string option \<Rightarrow> outcome" where
  "get_old env cl ident force market =
     (let force' = (case force of None \<Rightarrow> \<not> cachePlaylists cl | Some f \<Rightarrow> f);
          market' = (case market of None \<Rightarrow> ''US'' | Some m \<Rightarrow> m);
          existing = (if \<not> force' then cache_playlists cl (JStr ident) else None);
          req = \<lparr>req_path = ''/playlists/'' @ ident, req_method = None,
                 req_headers = None, req_params = Some [(''market'', JStr market')],
                 req_body = None\<rparr>
      in case existing of
           Some p \<Rightarrow>
             \<lparr>result = Inr (JObj p), cache = cache_playlists cl, requests = [],
              fresh = []\<rparr>
         | None \<Rightarrow>
             (case and_then (fetch env req) (Playlist env) of
                Inr playlist \<Rightarrow>
                  \<lparr>result = Inr (JObj playlist),
                   cache = (if cachePlaylists cl
                            then (cache_playlists cl)(get_field playlist ''id'' \<mapsto> playlist)
                            else cache_playlists cl),
                   requests = [req], fresh = [playlist]\<rparr>
              | Inl e \<Rightarrow>
                  \<lparr>result = handleError env e, cache = cache_playlists cl,
                   requests = [req], fresh = []\<rparr>))"

definition getTracks_old :: "env \<Rightarrow> client \<Rightarrow> string \<Rightarrow> obj option \<Rightarrow> outcome" where
  "getTracks_old env cl ident options =
     (let req = tracks_request ident options in
      fetched cl req
        (try_catch
           (and_then (fetch env req) (\<lambda>res.
            and_then (getprop res ''items'') (\<lambda>its.
            and_then (js_map (PlaylistTrack env) its) (\<lambda>tracks.
            Inr (JArr tracks)))))
           (\<lambda>e. or_default (handleError env e) (JArr []))))"

definition getImages_old :: "env \<Rightarrow> client \<Rightarrow> string \<Rightarrow> outcome" where
  "getImages_old env cl ident =
     (let req = images_request ident in
      fetched cl req
        (try_catch (fetch env req) (\<lambda>e. or_default (handleError env e) (JArr []))))"

section \<open>The legacy artist methods\<close>

text \<open>
  The legacy classes extend \<open>Spotify\<close>, whose \<open>fetch({link, params})\<close> and
  \<open>getCodeImage(uri)\<close> are not part of the sources at hand; they are parameters, as are
  the constructors of the structures and the built-in \<open>encodeURIComponent\<close> (which
  throws on a malformed string).
\<close>

record legacy_request =
  link :: string
  link_params :: "obj option"

datatype event = Fetch legacy_request | CodeImage jsval

record legacy_env =
  legacy_fetch :: "legacy_request \<Rightarrow> error + jsval"
  getCodeImage :: "jsval \<Rightarrow> error + jsval"
  encodeURIComponent :: "string \<Rightarrow> error + string"
  ArtistStructure :: "jsval \<Rightarrow> error + obj"
  SimplifiedAlbum :: "jsval \<Rightarrow> error + obj"
  Track :: "jsval \<Rightarrow> error + obj"

text \<open>The options object of a legacy method; an absent field reads as \<open>undefined\<close>.\<close>

record artist_options =
  opt_limit :: jsval
  opt_advanced :: jsval
  opt_params :: "obj option"

definition no_options :: artist_options where
  "no_options = \<lparr>opt_limit = JUndefined, opt_advanced = JUndefined, opt_params = None\<rparr>"

text \<open>What a legacy call leaves behind: how its promise settles, and what it called.\<close>

record legacy_outcome =
  settled :: "error + jsval"
  events :: "event list"

text \<open>
  The promise is settled by the first \<open>resolve\<close> or \<open>reject\<close>. The check of the
  required argument rejects and does not return, so the \<open>try\<close> block runs all the same,
  and its own \<open>resolve(items)\<close> or \<open>reject(new UnexpectedError(e))\<close> comes second.
\<close>

definition settle :: "bool \<Rightarrow> string \<Rightarrow> error + jsval \<Rightarrow> error + jsval" where
  "settle missing msg body =
     (if missing then Inl (MissingParamError msg)
      else (case body of Inl e \<Rightarrow> Inl (UnexpectedError e) | Inr v \<Rightarrow> Inr v))"

text \<open>
  One round of the \<open>advanced\<close> loop on one entity: \<open>getCodeImage(x.uri)\<close>, then the two
  assignments \<open>x.codeImage = data.image\<close> and \<open>x.dominantColor = data.dominantColor\<close>.
\<close>

definition decorate :: "legacy_env \<Rightarrow> obj \<Rightarrow> error + obj" where
  "decorate env x =
     and_then (getCodeImage env (get_field x ''uri'')) (\<lambda>data.
     and_then (getprop data ''image'') (\<lambda>img.
     Inr (set_field ''dominantColor'' (field_of data ''dominantColor'')
            (set_field ''codeImage'' img x))))"

fun advance :: "legacy_env \<Rightarrow> obj list \<Rightarrow> (error + obj list) \<times> event list" where
  "advance env [] = (Inr [], [])"
| "advance env (x # xs) =
     (case decorate env x of
        Inl e \<Rightarrow> (Inl e, [CodeImage (get_field x ''uri'')])
      | Inr x' \<Rightarrow>
          (case advance env xs of
             (Inl e, evs) \<Rightarrow> (Inl e, CodeImage (get_field x ''uri'') # evs)
           | (Inr ys, evs) \<Rightarrow> (Inr (x' # ys), CodeImage (get_field x ''uri'') # evs)))"

text \<open>
  The part of the \<open>try\<close> block after the response: \<open>arr.map(x => new C(x))\<close>, the
  \<open>advanced\<close> loop, and the array handed to \<open>resolve\<close>.
\<close>

definition listing ::
  "legacy_env \<Rightarrow> (jsval \<Rightarrow> error + obj) \<Rightarrow> jsval \<Rightarrow> error + jsval \<Rightarrow>
   (error + jsval) \<times> event list" where
  "listing env ctor adv arr =
     (case and_then arr (js_map ctor) of
        Inl e \<Rightarrow> (Inl e, [])
      | Inr its \<Rightarrow>
          (if truthy adv
           then (case advance env its of
                   (Inl e, evs) \<Rightarrow> (Inl e, evs)
                 | (Inr its', evs) \<Rightarrow> (Inr (JArr (map JObj its')), evs))
           else (Inr (JArr (map JObj its)), [])))"

definition artist_search_request :: "string \<Rightarrow> artist_options \<Rightarrow> legacy_request" where
  "artist_search_request enc options =
     \<lparr>link = ''v1/search'',
      link_params =
        Some (spread_opt (opt_params options)
               [(''q'', JStr enc), (''type'', JStr ''artist''), (''market'', JStr ''US''),
                (''limit'', opt_limit options)])\<rparr>"

definition artist_search ::
  "legacy_env \<Rightarrow> string \<Rightarrow> artist_options option \<Rightarrow> legacy_outcome" where
  "artist_search env q options =
     (let opts = (case options of None \<Rightarrow> no_options\<lparr>opt_limit := JNum 20\<rparr> | Some r \<Rightarrow> r)
      in case encodeURIComponent env q of
           Inl e \<Rightarrow> \<lparr>settled = settle (q = []) ''missing query'' (Inl e), events = []\<rparr>
         | Inr enc \<Rightarrow>
             (let req = artist_search_request enc opts;
                  arr = and_then (legacy_fetch env req) (\<lambda>res.
                        and_then (getprop res ''artists'') (\<lambda>a. getprop a ''items''))
              in case listing env (ArtistStructure env) (opt_advanced opts) arr of
                   (r, evs) \<Rightarrow>
                     \<lparr>settled = settle (q = []) ''missing query'' r,
                      events = Fetch req # evs\<rparr>))"

definition artist_get ::
  "legacy_env \<Rightarrow> string \<Rightarrow> artist_options option \<Rightarrow> legacy_outcome" where
  "artist_get env ident options =
     (let opts = (case options of None \<Rightarrow> no_options | Some r \<Rightarrow> r);
          req = \<lparr>link = ''v1/artists/'' @ ident, link_params = None\<rparr>
      in case and_then (legacy_fetch env req) (ArtistStructure env) of
           Inl e \<Rightarrow>
             \<lparr>settled = settle (ident = []) ''missing id'' (Inl e), events = [Fetch req]\<rparr>
         | Inr data \<Rightarrow>
             (if truthy (opt_advanced opts)
              then \<lparr>settled =
                      settle (ident = []) ''missing id''
                        (and_then (decorate env data) (\<lambda>data'. Inr (JObj data'))),
                     events = [Fetch req, CodeImage (get_field data ''uri'')]\<rparr>
              else \<lparr>settled = settle (ident = []) ''missing id'' (Inr (JObj data)),
                     events = [Fetch req]\<rparr>))"

definition albums_request :: "string \<Rightarrow> artist_options \<Rightarrow> legacy_request" where
  "albums_request ident options =
     \<lparr>link = ''v1/artists/'' @ ident @ ''/albums'',
      link_params =
        Some (spread_opt (opt_params options)
               [(''limit'', opt_limit options), (''market'', JStr ''US''),
                (''include_groups'', JStr ''single'')])\<rparr>"

definition getAlbums ::
  "legacy_env \<Rightarrow> string \<Rightarrow> artist_options option \<Rightarrow> legacy_outcome" where
  "getAlbums env ident options =
     (let opts = (case options of None \<Rightarrow> no_options\<lparr>opt_limit := JNum 20\<rparr> | Some r \<Rightarrow> r);
          req = albums_request ident opts;
          arr = and_then (legacy_fetch env req) (\<lambda>res. getprop res ''items'')
      in case listing env (SimplifiedAlbum env) (opt_advanced opts) arr of
           (r, evs) \<Rightarrow>
             \<lparr>settled = settle (ident = []) ''missing id'' r, events = Fetch req # evs\<rparr>)"

definition top_tracks_request :: "string \<Rightarrow> artist_options \<Rightarrow> legacy_request" where
  "top_tracks_request ident options =
     \<lparr>link = ''v1/artists/'' @ ident @ ''/top-tracks'',
      link_params = Some (spread_opt (opt_params options) [(''country'', JStr ''US'')])\<rparr>"

definition topTracks ::
  "legacy_env \<Rightarrow> string \<Rightarrow> artist_options option \<Rightarrow> legacy_outcome" where
  "topTracks env ident options =
     (let opts = (case options of None \<Rightarrow> no_options | Some r \<Rightarrow> r);
          req = top_tracks_request ident opts;
          arr = and_then (legacy_fetch env req) (\<lambda>res. getprop res ''tracks'')
      in case listing env (Track env) (opt_advanced opts) arr of
           (r, evs) \<Rightarrow>
             \<lparr>settled = settle (ident = []) ''missing id'' r, events = Fetch req # evs\<rparr>)"

definition related_request :: "string \<Rightarrow> legacy_request" where
  "related_request ident =
     \<lparr>link = ''v1/artists/'' @ ident @ ''/related-artists'',
      link_params = Some [(''country'', JStr ''US'')]\<rparr>"

definition relatedArtists ::
  "legacy_env \<Rightarrow> string \<Rightarrow> artist_options option \<Rightarrow> legacy_outcome" where
  "relatedArtists env ident options =
     (let opts = (case options of None \<Rightarrow> no_options | Some r \<Rightarrow> r);
          req = related_request ident;
          arr = and_then (legacy_fetch env req) (\<lambda>res. getprop res ''artists'')
      in case listing env (ArtistStructure env) (opt_advanced opts) arr of
           (r, evs) \<Rightarrow>
             \<lparr>settled = settle (ident = []) ''missing id'' r, events = Fetch req # evs\<rparr>)"

section \<open>The legacy client\<close>

text \<open>
  A manager object of the legacy client is built from the token alone
  (\<open>new Playlist_1.default(this.token)\<close>), so it is modelled by that token
  (the field \<open>shows\<close> is named \<open>shows_lib\<close>).
\<close>

datatype manager = Manager string

text \<open>
  Modelled from the spec: the class \<open>CacheManager\<close> is not part of the sources at hand.
  The spec calls the cache an id-to-object map, so \<open>cache.tracks\<close> is a map from ids to
  entity objects, empty when constructed.
\<close>

record legacy_client =
  token :: string
  utils :: manager
  startedAt :: int
  cacheOptions :: obj
  tracks :: manager
  oauth :: manager
  users :: manager
  playlists :: manager
  albums :: manager
  artists :: manager
  episodes :: manager
  shows_lib :: manager
  browse :: manager
  user :: manager
  cache_tracks :: "jsval \<rightharpoonup> obj"

text \<open>The constructor; \<open>now\<close> is what \<open>Date.now()\<close> returns.\<close>

definition new_client :: "string \<Rightarrow> obj option \<Rightarrow> int \<Rightarrow> legacy_client" where
  "new_client auth options now =
     (let t = (if auth = [] then ''NO TOKEN'' else auth) in
      \<lparr>token = t, utils = Manager t, startedAt = now,
       cacheOptions =
         (case options of None \<Rightarrow> [(''cacheTracks'', JBool False)] | Some ps \<Rightarrow> ps),
       tracks = Manager t, oauth = Manager t, users = Manager t, playlists = Manager t,
       albums = Manager t, artists = Manager t, episodes = Manager t, shows_lib = Manager t,
       browse = Manager t, user = Manager t, cache_tracks = Map.empty\<rparr>)"

definition login :: "legacy_client \<Rightarrow> string \<Rightarrow> int \<Rightarrow> error + legacy_client" where
  "login cl t now =
     (if t = [] then Inl (MissingParamError ''missing token'')
      else Inr (cl\<lparr>token := t, utils := Manager t, startedAt := now, oauth := Manager t,
                    users := Manager t, playlists := Manager t, tracks := Manager t,
                    albums := Manager t, artists := Manager t, episodes := Manager t,
                    shows_lib := Manager t, browse := Manager t, user := Manager t\<rparr>))"

subsection \<open>getByURI\<close>

text \<open>\<open>uri.split(':')\<close>: the pieces between the colons; there is always at least one.\<close>

fun split_colon :: "string \<Rightarrow> string list" where
  "split_colon [] = [[]]"
| "split_colon (c # cs) =
     (if c = CHR '':'' then [] # split_colon cs
      else (case split_colon cs of [] \<Rightarrow> [[c]] | w # ws \<Rightarrow> (c # w) # ws))"

text \<open>\<open>xs[i]\<close> on an array of strings: \<open>undefined\<close> beyond its end.\<close>

definition at_index :: "string list \<Rightarrow> nat \<Rightarrow> jsval" where
  "at_index xs i = (if i < length xs then JStr (xs ! i) else JUndefined)"

text \<open>
  The \<open>get\<close> methods of the four managers the switch calls belong to classes that are not
  part of the sources at hand; they are parameters. A call is recorded with its argument.
\<close>

record managers =
  albums_get :: "jsval \<Rightarrow> error + jsval"
  artists_get :: "jsval \<Rightarrow> error + jsval"
  episodes_get :: "jsval \<Rightarrow> error + jsval"
  shows_get :: "jsval \<Rightarrow> error + jsval"

datatype manager_call = AlbumsGet jsval | ArtistsGet jsval | EpisodesGet jsval | ShowsGet jsval

record uri_outcome =
  uri_settled :: "error + jsval"
  uri_calls :: "manager_call list"

text \<open>\<open>resolve(await m.get(id))\<close> inside the \<open>try\<close>: a rejection is caught and wrapped.\<close>

definition resolve_with :: "error + jsval \<Rightarrow> error + jsval" where
  "resolve_with r = (case r of Inl e \<Rightarrow> Inl (UnexpectedError e) | Inr v \<Rightarrow> Inr v)"

definition getByURI :: "managers \<Rightarrow> string \<Rightarrow> uri_outcome" where
  "getByURI ms uri =
     (let split = split_colon uri;
          ident = at_index split 2;
          kind = at_index split 1
      in if kind = JStr ''album'' then
           \<lparr>uri_settled = resolve_with (albums_get ms ident), uri_calls = [AlbumsGet ident]\<rparr>
         else if kind = JStr ''artist'' then
           \<lparr>uri_settled = resolve_with (artists_get ms ident), uri_calls = [ArtistsGet ident]\<rparr>
         else if kind = JStr ''episode'' then
           \<lparr>uri_settled = resolve_with (episodes_get ms ident),
            uri_calls = [EpisodesGet ident]\<rparr>
         else if kind = JStr ''show'' then
           \<lparr>uri_settled = resolve_with (shows_get ms ident), uri_calls = [ShowsGet ident]\<rparr>
         else if kind = JStr ''track'' then
           \<lparr>uri_settled = resolve_with (shows_get ms ident), uri_calls = [ShowsGet ident]\<rparr>
         else if kind = JStr ''user'' then
           \<lparr>uri_settled = resolve_with (shows_get ms ident), uri_calls = [ShowsGet ident]\<rparr>
         else
           \<lparr>uri_settled =
              Inl (UnexpectedError (JsError (JStr ''We could not resolve your given uri!''))),
            uri_calls = []\<rparr>)"

section \<open>Sequences of calls\<close>

text \<open>
  A sequence of \<open>get\<close> and \<open>search\<close> calls on one client. Each call comes with the
  behaviour of the HTTP layer at the time it is made, since the upstream service may
  answer differently from one call to the next. The run threads the cache through the
  calls and collects, in order, the playlists built from the responses.
\<close>

datatype call = Get string "bool option" "string option" | Search string "obj option"

definition perform :: "env \<Rightarrow> client \<Rightarrow> call \<Rightarrow> outcome" where
  "perform env cl c =
     (case c of
        Get ident force market \<Rightarrow> get env cl ident force market
      | Search query options \<Rightarrow> search env cl query options)"

fun run ::
  "env \<Rightarrow> ((request \<Rightarrow> error + jsval) \<times> call) list \<Rightarrow> client \<times> obj list \<Rightarrow>
   client \<times> obj list" where
  "run env [] s = s"
| "run env (step # steps) (cl, log) =
     (let out = perform (env\<lparr>fetch := fst step\<rparr>) cl (snd step)
      in run env steps (cl\<lparr>cache_playlists := cache out\<rparr>, log @ fresh out))"

text \<open>The last playlist of a log whose \<open>id\<close> is \<open>k\<close>, if there is one.\<close>

definition latest :: "obj list \<Rightarrow> jsval \<Rightarrow> obj option" where
  "latest log k =
     (case filter (\<lambda>p. get_field p ''id'' = k) log of
        [] \<Rightarrow> None
      | p # ps \<Rightarrow> Some (last (p # ps)))"

section \<open>The methods, statement by statement, over a world that logs\<close>

text \<open>
  The definitions above give what a call leaves behind. Here the same methods are written
  once more from their text, one statement after the other, as computations over a world:
  the cache map and a trace. Nothing is entered into the trace by a method itself: a
  request is logged by the one primitive that hands it to the HTTP layer, a built object by
  the one primitive that calls a constructor, a caught error by the \<open>try\<close>/\<open>catch\<close>
  combinator. The lemmas of the section that compares the two show that they agree.
\<close>

type_synonym 'ev world = "(jsval \<rightharpoonup> obj) \<times> 'ev list"

type_synonym ('a, 'ev) io = "'ev world \<Rightarrow> (error + 'a) \<times> 'ev world"

definition ret :: "'a \<Rightarrow> ('a, 'ev) io" where
  "ret v = (\<lambda>w. (Inr v, w))"

text \<open>A step that touches nothing: it returns a value or throws.\<close>

definition lift :: "error + 'a \<Rightarrow> ('a, 'ev) io" where
  "lift r = (\<lambda>w. (r, w))"

text \<open>One statement after another; a throw skips what follows and keeps the world.\<close>

definition then_io :: "('a, 'ev) io \<Rightarrow> ('a \<Rightarrow> ('b, 'ev) io) \<Rightarrow> ('b, 'ev) io" where
  "then_io m f = (\<lambda>w. case m w of (Inl e, w') \<Rightarrow> (Inl e, w') | (Inr v, w') \<Rightarrow> f v w')"

definition catch_io :: "('a, 'ev) io \<Rightarrow> (error \<Rightarrow> ('a, 'ev) io) \<Rightarrow> ('a, 'ev) io" where
  "catch_io m h = (\<lambda>w. case m w of (Inl e, w') \<Rightarrow> h e w' | (Inr v, w') \<Rightarrow> (Inr v, w'))"

definition emit :: "'ev \<Rightarrow> (unit, 'ev) io" where
  "emit ev = (\<lambda>w. (Inr (), fst w, snd w @ [ev]))"

text \<open>\<open>cache.get(k)\<close> and \<open>cache.set(k, v)\<close>.\<close>

definition cache_get :: "jsval \<Rightarrow> (obj option, 'ev) io" where
  "cache_get k = (\<lambda>w. (Inr (fst w k), w))"

definition cache_set :: "jsval \<Rightarrow> obj \<Rightarrow> (unit, 'ev) io" where
  "cache_set k v = (\<lambda>w. (Inr (), (fst w)(k \<mapsto> v), snd w))"

text \<open>\<open>xs.map(f)\<close> and a \<open>for\<close> loop over a list, with a body that has effects.\<close>

fun map_io :: "('a \<Rightarrow> ('b, 'ev) io) \<Rightarrow> 'a list \<Rightarrow> ('b list, 'ev) io" where
  "map_io f [] = ret []"
| "map_io f (x # xs) = then_io (f x) (\<lambda>y. then_io (map_io f xs) (\<lambda>ys. ret (y # ys)))"

fun each_io :: "('a \<Rightarrow> (unit, 'ev) io) \<Rightarrow> 'a list \<Rightarrow> (unit, 'ev) io" where
  "each_io f [] = ret ()"
| "each_io f (x # xs) = then_io (f x) (\<lambda>u. each_io f xs)"

definition js_map_io :: "(jsval \<Rightarrow> ('b, 'ev) io) \<Rightarrow> jsval \<Rightarrow> ('b list, 'ev) io" where
  "js_map_io f v = (case v of JArr xs \<Rightarrow> map_io f xs | _ \<Rightarrow> lift (Inl TypeError))"

subsection \<open>The playlist manager\<close>

datatype effect = Request request | Built obj | Caught error

text \<open>\<open>await this.fetch(...)\<close>: the request is logged, then the HTTP layer answers.\<close>

definition http :: "env \<Rightarrow> request \<Rightarrow> (jsval, effect) io" where
  "http env req = then_io (emit (Request req)) (\<lambda>u. lift (fetch env req))"

text \<open>\<open>new C(x, client)\<close>: the object the constructor returns is logged.\<close>

definition construct :: "(jsval \<Rightarrow> error + obj) \<Rightarrow> jsval \<Rightarrow> (obj, effect) io" where
  "construct ctor x = then_io (lift (ctor x)) (\<lambda>p. then_io (emit (Built p)) (\<lambda>u. ret p))"

text \<open>\<open>try { body } catch (e) { handler }\<close>: entering the handler is logged.\<close>

definition try_io ::
  "('a, effect) io \<Rightarrow> (error \<Rightarrow> ('a, effect) io) \<Rightarrow> ('a, effect) io" where
  "try_io body handler = catch_io body (\<lambda>e. then_io (emit (Caught e)) (\<lambda>u. handler e))"

definition store_all :: "obj list \<Rightarrow> (unit, effect) io" where
  "store_all ps = each_io (\<lambda>p. cache_set (get_field p ''id'') p) ps"

definition search_io :: "env \<Rightarrow> client \<Rightarrow> string \<Rightarrow> obj option \<Rightarrow> (jsval, effect) io" where
  "search_io env cl query options =
     try_io
       (then_io (http env (search_request query options)) (\<lambda>res.
        then_io (lift (getprop res ''playlists'')) (\<lambda>data.
        then_io (lift (getprop data ''items'')) (\<lambda>its.
        then_io (js_map_io (construct (Playlist env)) its) (\<lambda>playlists.
        then_io (if cachePlaylists cl then store_all playlists else ret ()) (\<lambda>u.
        ret (paging data (map JObj playlists))))))))
       (\<lambda>e. lift (or_default (handleError env e) empty_paging))"

definition get_io ::
  "env \<Rightarrow> client \<Rightarrow> string \<Rightarrow> bool option \<Rightarrow> string option \<Rightarrow> (jsval, effect) io" where
  "get_io env cl ident force market =
     then_io (if \<not> force_of cl force then cache_get (JStr ident) else ret None) (\<lambda>existing.
     case existing of
       Some p \<Rightarrow> ret (JObj p)
     | None \<Rightarrow>
         try_io
           (then_io (http env (playlist_request ident (market_of market))) (\<lambda>res.
            then_io (construct (Playlist env) res) (\<lambda>playlist.
            then_io (if cachePlaylists cl
                     then cache_set (get_field playlist ''id'') playlist else ret ()) (\<lambda>u.
            ret (JObj playlist)))))
           (\<lambda>e. lift (handleError env e)))"

definition getTracks_io :: "env \<Rightarrow> string \<Rightarrow> obj option \<Rightarrow> (jsval, effect) io" where
  "getTracks_io env ident options =
     try_io
       (then_io (http env (tracks_request ident options)) (\<lambda>data.
        then_io (lift (getprop data ''items'')) (\<lambda>its.
        then_io (lift (js_map (PlaylistTrack env) its)) (\<lambda>ts.
        ret (paging data ts)))))
       (\<lambda>e. lift (or_default (handleError env e) empty_paging))"

definition getImages_io :: "env \<Rightarrow> string \<Rightarrow> (jsval, effect) io" where
  "getImages_io env ident =
     try_io (http env (images_request ident))
       (\<lambda>e. lift (or_default (handleError env e) (JArr [])))"

definition userFollows_io :: "env \<Rightarrow> string \<Rightarrow> string list \<Rightarrow> (jsval, effect) io" where
  "userFollows_io env playlistID ids =
     try_io (http env (follows_request playlistID ids))
       (\<lambda>e. lift (or_default (handleError env e) (JArr [])))"

definition addItems_io ::
  "env \<Rightarrow> string \<Rightarrow> string list \<Rightarrow> obj option \<Rightarrow> (jsval, effect) io" where
  "addItems_io env ident uris options =
     try_io
       (then_io (http env (add_request ident uris options)) (\<lambda>res.
        lift (getprop res ''snapshot_id'')))
       (\<lambda>e. lift (or_default (handleError env e) JNull))"

definition reorderItems_io ::
  "env \<Rightarrow> string \<Rightarrow> string list \<Rightarrow> obj option \<Rightarrow> (jsval, effect) io" where
  "reorderItems_io env ident uris options =
     try_io
       (then_io (http env (reorder_request ident uris options)) (\<lambda>res.
        lift (getprop res ''snapshot_id'')))
       (\<lambda>e. lift (or_default (handleError env e) JNull))"

definition removeItems_io ::
  "env \<Rightarrow> string \<Rightarrow> string list \<Rightarrow> string option \<Rightarrow> (jsval, effect) io" where
  "removeItems_io env ident uris snapshotID =
     try_io
       (then_io (http env (remove_request ident uris snapshotID)) (\<lambda>res.
        lift (getprop res ''snapshot_id'')))
       (\<lambda>e. lift (or_default (handleError env e) JNull))"

definition uploadImage_io :: "env \<Rightarrow> string \<Rightarrow> string \<Rightarrow> (jsval, effect) io" where
  "uploadImage_io env ident img =
     try_io
       (then_io (http env (upload_request ident img)) (\<lambda>res. ret (JBool True)))
       (\<lambda>e. lift (or_default (handleError env e) (JBool False)))"


definition getTracks_old_io :: "env \<Rightarrow> string \<Rightarrow> obj option \<Rightarrow> (jsval, effect) io" where
  "getTracks_old_io env ident options =
     try_io
       (then_io (http env (tracks_request ident options)) (\<lambda>res.
        then_io (lift (getprop res ''items'')) (\<lambda>its.
        then_io (lift (js_map (PlaylistTrack env) its)) (\<lambda>ts.
        ret (JArr ts)))))
       (\<lambda>e. lift (or_default (handleError env e) (JArr [])))"

definition getImages_old_io :: "env \<Rightarrow> string \<Rightarrow> (jsval, effect) io" where
  "getImages_old_io env ident =
     try_io (http env (images_request ident))
       (\<lambda>e. lift (or_default (handleError env e) (JArr [])))"

text \<open>
  Running a method of the playlist manager on a client: the world starts with the
  client's cache and an empty trace.
\<close>

record observed =
  o_result :: "error + jsval"
  o_cache :: "jsval \<rightharpoonup> obj"
  o_trace :: "effect list"

definition exec :: "client \<Rightarrow> (jsval, effect) io \<Rightarrow> observed" where
  "exec cl m =
     (case m (cache_playlists cl, []) of
        (r, w) \<Rightarrow> \<lparr>o_result = r, o_cache = fst w, o_trace = snd w\<rparr>)"

text \<open>Reading a trace: the requests sent, the objects built, whether an error was caught.\<close>

fun sent :: "effect \<Rightarrow> request list" where
  "sent (Request r) = [r]"
| "sent (Built p) = []"
| "sent (Caught e) = []"

fun made :: "effect \<Rightarrow> obj list" where
  "made (Request r) = []"
| "made (Built p) = [p]"
| "made (Caught e) = []"

fun is_caught :: "effect \<Rightarrow> bool" where
  "is_caught (Request r) = False"
| "is_caught (Built p) = False"
| "is_caught (Caught e) = True"

definition requests_of :: "effect list \<Rightarrow> request list" where
  "requests_of t = concat (map sent t)"

definition built_of :: "effect list \<Rightarrow> obj list" where
  "built_of t = concat (map made t)"

definition caught :: "effect list \<Rightarrow> bool" where
  "caught t = list_ex is_caught t"

text \<open>
  The playlists a call built and kept: all it built when its \<open>try\<close> block ran to the
  end, none when an error was caught (the objects built before the throw are dropped).
\<close>

definition kept_of :: "effect list \<Rightarrow> obj list" where
  "kept_of t = (if caught t then [] else built_of t)"

subsection \<open>Sequences of calls, logged\<close>

definition perform_io :: "env \<Rightarrow> client \<Rightarrow> call \<Rightarrow> (jsval, effect) io" where
  "perform_io env cl c =
     (case c of
        Get ident force market \<Rightarrow> get_io env cl ident force market
      | Search query options \<Rightarrow> search_io env cl query options)"

text \<open>
  A run of calls, each with the HTTP layer of its moment. It threads the cache and
  collects two logs: every playlist a constructor returned, and the playlists kept.
\<close>

record history =
  h_client :: client
  h_built :: "obj list"
  h_kept :: "obj list"

fun run_io ::
  "env \<Rightarrow> ((request \<Rightarrow> error + jsval) \<times> call) list \<Rightarrow> history \<Rightarrow> history" where
  "run_io env [] h = h"
| "run_io env (step # steps) h =
     (let out = exec (h_client h) (perform_io (env\<lparr>fetch := fst step\<rparr>) (h_client h) (snd step))
      in run_io env steps
           \<lparr>h_client = (h_client h)\<lparr>cache_playlists := o_cache out\<rparr>,
            h_built = h_built h @ built_of (o_trace out),
            h_kept = h_kept h @ kept_of (o_trace out)\<rparr>)"

subsection \<open>The legacy artist methods\<close>











subsection \<open>What a run of constructor calls builds\<close>

text \<open>The objects \<open>xs.map(x => new C(x))\<close> has built when it ends or throws.\<close>

fun built_before :: "(jsval \<Rightarrow> error + obj) \<Rightarrow> jsval list \<Rightarrow> obj list" where
  "built_before ctor [] = []"
| "built_before ctor (x # xs) =
     (case ctor x of Inl e \<Rightarrow> [] | Inr p \<Rightarrow> p # built_before ctor xs)"

section \<open>Notions for stating what a legacy call does\<close>





section \<open>Concrete environments\<close>

text \<open>
  Small concrete managers, responses and handlers on which the statements below are
  evaluated.
\<close>

definition demo_managers :: managers where
  "demo_managers =
     \<lparr>albums_get = (\<lambda>i. Inr (JObj [(''type'', JStr ''album''), (''id'', i)])),
      artists_get = (\<lambda>i. Inr (JObj [(''type'', JStr ''artist''), (''id'', i)])),
      episodes_get = (\<lambda>i. Inr (JObj [(''type'', JStr ''episode''), (''id'', i)])),
      shows_get = (\<lambda>i. Inl (JsError (JStr ''no such show'')))\<rparr>"

text \<open>
  A constructor of a structure that mirrors its payload: the entity has the properties of
  the JSON object, and reading a property of \<open>null\<close> or \<open>undefined\<close> throws.
\<close>

definition mirror :: "jsval \<Rightarrow> error + obj" where
  "mirror v =
     (case v of JObj ps \<Rightarrow> Inr ps | JUndefined \<Rightarrow> Inl TypeError | JNull \<Rightarrow> Inl TypeError
      | _ \<Rightarrow> Inr [])"

definition demo_playlists :: "obj list" where
  "demo_playlists =
     [[(''id'', JStr ''p1''), (''name'', JStr ''Morning'')],
      [(''id'', JStr ''p2''), (''name'', JStr ''Evening'')]]"

definition demo_envelope :: jsval where
  "demo_envelope =
     JObj [(''items'', JArr (map JObj demo_playlists)), (''limit'', JNum 20),
           (''offset'', JNum 0), (''total'', JNum 2)]"

definition demo_search_response :: jsval where
  "demo_search_response = JObj [(''playlists'', demo_envelope)]"

text \<open>
  An HTTP layer that answers a search, knows the playlist \<open>p1\<close> and its tracks, and
  rejects every other request; a handler that returns \<open>null\<close>.
\<close>

definition demo_fetch :: "request \<Rightarrow> error + jsval" where
  "demo_fetch r =
     (if req_path r = ''/search'' then Inr demo_search_response
      else if req_path r = ''/playlists/p1'' then Inr (JObj (hd demo_playlists))
      else if req_path r = ''/playlists/p1/tracks'' then
        Inr (JObj [(''items'', JArr [JStr ''t1'', JStr ''t2'']), (''limit'', JNum 100),
                   (''offset'', JNum 0), (''total'', JNum 2)])
      else Inl (JsError (JStr ''404'')))"

definition demo_env :: env where
  "demo_env =
     \<lparr>fetch = demo_fetch, handleError = (\<lambda>e. Inr JNull), Playlist = mirror,
      PlaylistTrack = (\<lambda>v. Inr v)\<rparr>"

definition demo_client :: client where
  "demo_client = \<lparr>cachePlaylists = True, cache_playlists = Map.empty\<rparr>"

text \<open>The same environment with an HTTP layer that rejects every request.\<close>

definition offline_env :: env where
  "offline_env = demo_env\<lparr>fetch := (\<lambda>r. Inl (JsError (JStr ''offline'')))\<rparr>"

text \<open>
  A later state of the upstream service, in which the playlist \<open>p1\<close> has been renamed,
  and a run of two calls: a search, then a forced \<open>get\<close> of \<open>p1\<close>.
\<close>

definition renamed_playlist :: obj where
  "renamed_playlist = [(''id'', JStr ''p1''), (''name'', JStr ''Noon'')]"

definition later_fetch :: "request \<Rightarrow> error + jsval" where
  "later_fetch r =
     (if req_path r = ''/playlists/p1'' then Inr (JObj renamed_playlist)
      else Inl (JsError (JStr ''404'')))"

definition demo_steps :: "((request \<Rightarrow> error + jsval) \<times> call) list" where
  "demo_steps = [(demo_fetch, Search ''jazz'' None), (later_fetch, Get ''p1'' (Some True) None)]"

definition demo_legacy_client :: legacy_client where
  "demo_legacy_client =
     (new_client ''token-1'' None 1000)\<lparr>cache_tracks := [JStr ''t1'' \<mapsto> [(''id'', JStr ''t1'')]]\<rparr>"

text \<open>The legacy client after \<open>login('token-2')\<close> at time 2000.\<close>

definition demo_relogged :: legacy_client where
  "demo_relogged =
     demo_legacy_client
       \<lparr>token := ''token-2'', utils := Manager ''token-2'', startedAt := 2000,
        oauth := Manager ''token-2'', users := Manager ''token-2'',
        playlists := Manager ''token-2'', tracks := Manager ''token-2'',
        albums := Manager ''token-2'', artists := Manager ''token-2'',
        episodes := Manager ''token-2'', shows_lib := Manager ''token-2'',
        browse := Manager ''token-2'', user := Manager ''token-2''\<rparr>"


text \<open>
  A legacy environment: the search finds one artist, the artist \<open>a1\<close> is known, every
  other request is rejected, and \<open>getCodeImage\<close> returns an image and a colour.
\<close>

definition demo_artist :: obj where
  "demo_artist = [(''id'', JStr ''a1''), (''uri'', JStr ''spotify:artist:a1'')]"

definition demo_code_image :: jsval where
  "demo_code_image =
     JObj [(''image'', JStr ''https://scannables.scdn.co/a1''),
           (''dominantColor'', JStr ''#1db954'')]"

definition demo_legacy_env :: legacy_env where
  "demo_legacy_env =
     \<lparr>legacy_fetch =
        (\<lambda>r. if link r = ''v1/search''
             then Inr (JObj [(''artists'', JObj [(''items'', JArr [JObj demo_artist])])])
             else if link r = ''v1/artists/a1'' then Inr (JObj demo_artist)
             else Inl (JsError (JStr ''404''))),
      getCodeImage = (\<lambda>u. Inr demo_code_image),
      encodeURIComponent = (\<lambda>s. Inr s),
      ArtistStructure = mirror, SimplifiedAlbum = mirror, Track = mirror\<rparr>"

definition advanced_options :: artist_options where
  "advanced_options = no_options\<lparr>opt_limit := JNum 1, opt_advanced := JBool True\<rparr>"

text \<open>The artist after the two assignments of the \<open>advanced\<close> loop.\<close>

definition decorated_artist :: obj where
  "decorated_artist =
     [(''id'', JStr ''a1''), (''uri'', JStr ''spotify:artist:a1''),
      (''codeImage'', JStr ''https://scannables.scdn.co/a1''),
      (''dominantColor'', JStr ''#1db954'')]"

text \<open>An offline environment whose handler rethrows what it is given, wrapped.\<close>

definition strict_env :: env where
  "strict_env = offline_env\<lparr>handleError := (\<lambda>e. Inl (UnexpectedError e))\<rparr>"


text \<open>
  Two states of the upstream service for the playlist \<open>p1\<close>: an HTTP layer that knows
  it under its old name, and one whose search finds it under a new name, followed by an
  item that is \<open>null\<close>. A run that gets the playlist from the first and then searches the
  second.
\<close>

definition old_playlist :: obj where
  "old_playlist = [(''id'', JStr ''p1''), (''name'', JStr ''Old'')]"

definition new_playlist :: obj where
  "new_playlist = [(''id'', JStr ''p1''), (''name'', JStr ''New'')]"

definition old_fetch :: "request \<Rightarrow> error + jsval" where
  "old_fetch r =
     (if req_path r = ''/playlists/p1'' then Inr (JObj old_playlist)
      else Inl (JsError (JStr ''404'')))"

definition broken_fetch :: "request \<Rightarrow> error + jsval" where
  "broken_fetch r =
     (if req_path r = ''/search''
      then Inr (JObj [(''playlists'',
                       JObj [(''items'', JArr [JObj new_playlist, JNull]),
                             (''limit'', JNum 20), (''offset'', JNum 0), (''total'', JNum 2)])])
      else Inl (JsError (JStr ''404'')))"

definition stale_steps :: "((request \<Rightarrow> error + jsval) \<times> call) list" where
  "stale_steps = [(old_fetch, Get ''p1'' None None), (broken_fetch, Search ''p'' None)]"

definition new_history :: history where
  "new_history = \<lparr>h_client = demo_client, h_built = [], h_kept = []\<rparr>"



section \<open>Objects: reading, writing, deleting and spreading\<close>

lemma map_of_set_field: "map_of (set_field k v ps) = (map_of ps)(k \<mapsto> v)"
  by (induction ps) (auto simp: fun_eq_iff)

lemma map_of_delete_field: "map_of (delete_field k ps) = (map_of ps)(k := None)"
  by (induction ps) (auto simp: delete_field_def fun_eq_iff)

lemma get_field_set_field:
  "get_field (set_field k v ps) k' = (if k' = k then v else get_field ps k')"
  by (simp add: get_field_def map_of_set_field)

lemma get_field_delete_field:
  "get_field (delete_field k ps) k' = (if k' = k then JUndefined else get_field ps k')"
  by (simp add: get_field_def map_of_delete_field)

lemma set_field_new: "k \<notin> fst ` set ps \<Longrightarrow> set_field k v ps = ps @ [(k, v)]"
  by (induction ps) auto

lemma spread_distinct:
  "distinct (map fst (acc @ ps)) \<Longrightarrow> spread ps acc = acc @ ps"
proof (induction ps arbitrary: acc)
  case Nil
  then show ?case by (simp add: spread_def)
next
  case (Cons p ps)
  have new: "fst p \<notin> fst ` set acc" using Cons.prems by auto
  have "spread (p # ps) acc = spread ps (set_field (fst p) (snd p) acc)"
    by (simp add: spread_def)
  also have "\<dots> = spread ps (acc @ [p])"
    using new by (simp add: set_field_new)
  also have "\<dots> = (acc @ [p]) @ ps"
    using Cons.prems by (intro Cons.IH) simp
  finally show ?case by simp
qed

lemma get_field_distinct:
  "distinct (map fst ps) \<Longrightarrow> (k, v) \<in> set ps \<Longrightarrow> get_field ps k = v"
  by (simp add: get_field_def)

lemma prune_step:
  assumes "distinct (map fst ps)"
  shows "(if \<not> truthy (get_field ps k) then delete_field k ps else ps) =
         filter (\<lambda>p. fst p = k \<longrightarrow> truthy (snd p)) ps"
proof (cases "truthy (get_field ps k)")
  case True
  have "\<forall>p \<in> set ps. fst p = k \<longrightarrow> truthy (snd p)"
  proof (intro ballI impI)
    fix p assume p: "p \<in> set ps" "fst p = k"
    then have "(k, snd p) \<in> set ps" by (metis prod.collapse)
    with assms have "get_field ps k = snd p" by (rule get_field_distinct)
    with True show "truthy (snd p)" by simp
  qed
  then have "filter (\<lambda>p. fst p = k \<longrightarrow> truthy (snd p)) ps = ps"
    by (simp add: filter_id_conv)
  with True show ?thesis by simp
next
  case False
  have "\<forall>p \<in> set ps. (fst p \<noteq> k) = (fst p = k \<longrightarrow> truthy (snd p))"
  proof
    fix p assume p: "p \<in> set ps"
    show "(fst p \<noteq> k) = (fst p = k \<longrightarrow> truthy (snd p))"
    proof (cases "fst p = k")
      case True
      with p have "(k, snd p) \<in> set ps" by (metis prod.collapse)
      with assms have "get_field ps k = snd p" by (rule get_field_distinct)
      with False True show ?thesis by simp
    qed simp
  qed
  then have "filter (\<lambda>p. fst p \<noteq> k) ps = filter (\<lambda>p. fst p = k \<longrightarrow> truthy (snd p)) ps"
    by (intro filter_cong) auto
  with False show ?thesis by (simp add: delete_field_def)
qed

lemma prune_fold:
  "distinct (map fst ps) \<Longrightarrow>
   fold (\<lambda>x acc. if \<not> truthy (get_field acc x) then delete_field x acc else acc) ks ps =
   filter (\<lambda>p. fst p \<in> set ks \<longrightarrow> truthy (snd p)) ps"
proof (induction ks arbitrary: ps)
  case Nil
  then show ?case by simp
next
  case (Cons k ks)
  let ?ps' = "filter (\<lambda>p. fst p = k \<longrightarrow> truthy (snd p)) ps"
  have d: "distinct (map fst ?ps')" using Cons.prems by (simp add: distinct_map_filter)
  show ?case
    by (simp only: fold_simps prune_step [OF Cons.prems] Cons.IH [OF d])
       (auto intro: filter_cong)
qed

lemma prune_distinct:
  assumes "distinct (map fst ps)"
  shows "prune ps = filter (\<lambda>p. truthy (snd p)) ps"
proof -
  have "prune ps = filter (\<lambda>p. fst p \<in> set (map fst ps) \<longrightarrow> truthy (snd p)) ps"
    unfolding prune_def by (rule prune_fold [OF assms])
  also have "\<dots> = filter (\<lambda>p. truthy (snd p)) ps"
    by (intro filter_cong) auto
  finally show ?thesis .
qed

lemma body_fields:
  assumes "distinct (map fst ps)" "k \<notin> fst ` set ps"
  shows "set_field k v (spread (prune ps) []) = filter (\<lambda>p. truthy (snd p)) ps @ [(k, v)]"
proof -
  let ?kept = "filter (\<lambda>p. truthy (snd p)) ps"
  have d: "distinct (map fst ([] @ ?kept))" using assms(1) by (simp add: distinct_map_filter)
  have "spread (prune ps) [] = ?kept"
    using spread_distinct [OF d] by (simp add: prune_distinct [OF assms(1)])
  moreover have "k \<notin> fst ` set ?kept" using assms(2) by auto
  ultimately show ?thesis by (simp add: set_field_new)
qed

lemma map_throw_Inr: "map_throw f xs = Inr ys \<Longrightarrow> map f xs = map Inr ys"
  by (induction xs arbitrary: ys) (auto split: sum.splits)

lemma spread_opt_distinct:
  "distinct (map fst (case options of None \<Rightarrow> [] | Some ps \<Rightarrow> ps)) \<Longrightarrow>
   spread_opt options [] = (case options of None \<Rightarrow> [] | Some ps \<Rightarrow> ps)"
  using spread_distinct [of "[]"] by (cases options) (simp_all add: spread_opt_def)

section \<open>The two embeddings agree\<close>

lemma then_run:
  "m w = (r, w') \<Longrightarrow> then_io m f w = (case r of Inl e \<Rightarrow> (Inl e, w') | Inr v \<Rightarrow> f v w')"
  by (simp add: then_io_def split: sum.splits)

lemma then_lift: "then_io (lift r) f w = (case r of Inl e \<Rightarrow> (Inl e, w) | Inr v \<Rightarrow> f v w)"
  by (simp add: then_io_def lift_def split: sum.splits)

lemma then_pair:
  "then_io (Pair r) f w = (case r of Inl e \<Rightarrow> (Inl e, w) | Inr v \<Rightarrow> f v w)"
  by (simp add: then_io_def split: sum.splits)

lemma then_ret: "then_io (ret v) f w = f v w"
  by (simp add: then_io_def ret_def)

lemma then_emit: "then_io (emit ev) f w = f () (fst w, snd w @ [ev])"
  by (simp add: then_io_def emit_def)

lemma then_http:
  "then_io (http env req) f w =
     (case fetch env req of
        Inl e \<Rightarrow> (Inl e, fst w, snd w @ [Request req])
      | Inr v \<Rightarrow> f v (fst w, snd w @ [Request req]))"
  by (simp add: then_io_def http_def emit_def lift_def split: sum.splits)

lemma then_construct:
  "then_io (construct ctor x) f w =
     (case ctor x of Inl e \<Rightarrow> (Inl e, w) | Inr p \<Rightarrow> f p (fst w, snd w @ [Built p]))"
  by (simp add: then_io_def construct_def emit_def lift_def ret_def split: sum.splits)

lemma then_cache_get: "then_io (cache_get k) f w = f (fst w k) w"
  by (simp add: then_io_def cache_get_def)

lemma then_cache_set: "then_io (cache_set k v) f w = f () ((fst w)(k \<mapsto> v), snd w)"
  by (simp add: then_io_def cache_set_def)

lemma try_run:
  "try_io m h w =
     (case m w of
        (Inl e, w') \<Rightarrow> h e (fst w', snd w' @ [Caught e])
      | (Inr v, w') \<Rightarrow> (Inr v, w'))"
  by (simp add: try_io_def catch_io_def then_emit split: prod.splits sum.splits)

lemma cache_all_Cons: "cache_all (p # ps) c = cache_all ps (c(get_field p ''id'' \<mapsto> p))"
  by (simp add: cache_all_def)

lemma store_all_run: "store_all ps w = (Inr (), cache_all ps (fst w), snd w)"
proof (induction ps arbitrary: w)
  case Nil
  show ?case by (simp add: store_all_def cache_all_def ret_def)
next
  case (Cons p ps)
  have "store_all (p # ps) w = store_all ps ((fst w)(get_field p ''id'' \<mapsto> p), snd w)"
    by (simp add: store_all_def then_cache_set)
  also have "\<dots> = (Inr (), cache_all (p # ps) (fst w), snd w)"
    unfolding Cons cache_all_Cons by simp
  finally show ?case .
qed

lemma then_store_all: "then_io (store_all ps) f w = f () (cache_all ps (fst w), snd w)"
  by (simp add: then_run [OF store_all_run])

lemma built_before_all: "map_throw ctor xs = Inr ps \<Longrightarrow> built_before ctor xs = ps"
  by (induction xs arbitrary: ps) (auto split: sum.splits)

lemma map_construct_run:
  "map_io (construct ctor) xs w =
     (map_throw ctor xs, fst w, snd w @ map Built (built_before ctor xs))"
proof (induction xs arbitrary: w)
  case Nil
  show ?case by (simp add: ret_def)
next
  case (Cons x xs)
  show ?case
  proof (cases "ctor x")
    case (Inl e)
    then show ?thesis by (simp add: then_construct)
  next
    case (Inr p)
    have "map_io (construct ctor) (x # xs) w =
            then_io (map_io (construct ctor) xs) (\<lambda>ys. ret (p # ys))
              (fst w, snd w @ [Built p])"
      using Inr by (simp add: then_construct)
    also have "\<dots> =
       (case map_throw ctor xs of
          Inl e \<Rightarrow> (Inl e, fst w, (snd w @ [Built p]) @ map Built (built_before ctor xs))
        | Inr ys \<Rightarrow> (Inr (p # ys), fst w, (snd w @ [Built p]) @ map Built (built_before ctor xs)))"
      by (simp add: then_run [OF Cons] ret_def split: sum.splits)
    finally show ?thesis using Inr by (simp split: sum.splits)
  qed
qed

lemma then_js_map_construct:
  "then_io (js_map_io (construct ctor) v) f w =
     (case v of
        JArr xs \<Rightarrow>
          (case map_throw ctor xs of
             Inl e \<Rightarrow> (Inl e, fst w, snd w @ map Built (built_before ctor xs))
           | Inr ps \<Rightarrow> f ps (fst w, snd w @ map Built ps))
      | _ \<Rightarrow> (Inl TypeError, w))"
proof (cases v)
  case (JArr xs)
  have "then_io (js_map_io (construct ctor) v) f w =
          then_io (map_io (construct ctor) xs) f w"
    using JArr by (simp add: js_map_io_def)
  then show ?thesis
    using JArr
    by (auto simp: then_run [OF map_construct_run] built_before_all split: sum.splits)
qed (simp_all add: js_map_io_def then_lift)

lemma requests_of_simps [simp]:
  "requests_of [] = []"
  "requests_of (t @ u) = requests_of t @ requests_of u"
  "requests_of (Request r # t) = r # requests_of t"
  "requests_of (Built p # t) = requests_of t"
  "requests_of (Caught e # t) = requests_of t"
  by (simp_all add: requests_of_def)

lemma requests_of_Built [simp]: "requests_of (map Built bs) = []"
  by (induction bs) (simp_all add: requests_of_def)

lemma built_of_simps [simp]:
  "built_of [] = []"
  "built_of (t @ u) = built_of t @ built_of u"
  "built_of (Request r # t) = built_of t"
  "built_of (Built p # t) = p # built_of t"
  "built_of (Caught e # t) = built_of t"
  by (simp_all add: built_of_def)

lemma built_of_Built [simp]: "built_of (map Built bs) = bs"
  by (induction bs) (simp_all add: built_of_def)

lemma caught_simps [simp]:
  "caught [] = False"
  "caught (t @ u) = (caught t \<or> caught u)"
  "caught (Request r # t) = caught t"
  "caught (Built p # t) = caught t"
  "caught (Caught e # t) = True"
  by (simp_all add: caught_def)

lemma caught_Built [simp]: "caught (map Built bs) = False"
  by (induction bs) (simp_all add: caught_def)

lemma search_io_run:
  "search_io env cl q options (c, []) =
     (case fetch env (search_request q options) of
        Inl e \<Rightarrow> (or_default (handleError env e) empty_paging, c,
                  [Request (search_request q options), Caught e])
      | Inr res \<Rightarrow>
     (case getprop res ''playlists'' of
        Inl e \<Rightarrow> (or_default (handleError env e) empty_paging, c,
                  [Request (search_request q options), Caught e])
      | Inr data \<Rightarrow>
     (case getprop data ''items'' of
        Inl e \<Rightarrow> (or_default (handleError env e) empty_paging, c,
                  [Request (search_request q options), Caught e])
      | Inr its \<Rightarrow>
     (case js_map (Playlist env) its of
        Inl e \<Rightarrow> (or_default (handleError env e) empty_paging, c,
                  Request (search_request q options) #
                  map Built (case its of JArr xs \<Rightarrow> built_before (Playlist env) xs | _ \<Rightarrow> []) @
                  [Caught e])
      | Inr ps \<Rightarrow> (Inr (paging data (map JObj ps)),
                   (if cachePlaylists cl then cache_all ps c else c),
                   Request (search_request q options) # map Built ps)))))"
  by (cases "fetch env (search_request q options)")
     (auto simp: search_io_def try_run then_http then_pair lift_def ret_def
        then_js_map_construct then_store_all
        split: sum.splits jsval.splits)

lemma get_io_run:
  "get_io env cl ident force market (c, []) =
     (case (if force_of cl force then None else c (JStr ident)) of
        Some p \<Rightarrow> (Inr (JObj p), c, [])
      | None \<Rightarrow>
     (case fetch env (playlist_request ident (market_of market)) of
        Inl e \<Rightarrow> (handleError env e, c,
                  [Request (playlist_request ident (market_of market)), Caught e])
      | Inr res \<Rightarrow>
     (case Playlist env res of
        Inl e \<Rightarrow> (handleError env e, c,
                  [Request (playlist_request ident (market_of market)), Caught e])
      | Inr p \<Rightarrow> (Inr (JObj p),
                  (if cachePlaylists cl then c(get_field p ''id'' \<mapsto> p) else c),
                  [Request (playlist_request ident (market_of market)), Built p]))))"
  by (auto simp: get_io_def try_run then_http then_pair lift_def ret_def then_construct
      then_cache_get then_cache_set split: sum.splits option.splits)


lemma parsing_io_run:
  "getTracks_io env ident options (c, []) =
     (case and_then (fetch env (tracks_request ident options)) (\<lambda>data.
           and_then (getprop data ''items'') (\<lambda>its.
           and_then (js_map (PlaylistTrack env) its) (\<lambda>ts. Inr (paging data ts)))) of
        Inl e \<Rightarrow> (or_default (handleError env e) empty_paging, c,
                  [Request (tracks_request ident options), Caught e])
      | Inr v \<Rightarrow> (Inr v, c, [Request (tracks_request ident options)]))"
  "getTracks_old_io env ident options (c, []) =
     (case and_then (fetch env (tracks_request ident options)) (\<lambda>res.
           and_then (getprop res ''items'') (\<lambda>its.
           and_then (js_map (PlaylistTrack env) its) (\<lambda>ts. Inr (JArr ts)))) of
        Inl e \<Rightarrow> (or_default (handleError env e) (JArr []), c,
                  [Request (tracks_request ident options), Caught e])
      | Inr v \<Rightarrow> (Inr v, c, [Request (tracks_request ident options)]))"
  "addItems_io env ident uris options (c, []) =
     (case and_then (fetch env (add_request ident uris options))
             (\<lambda>res. getprop res ''snapshot_id'') of
        Inl e \<Rightarrow> (or_default (handleError env e) JNull, c,
                  [Request (add_request ident uris options), Caught e])
      | Inr v \<Rightarrow> (Inr v, c, [Request (add_request ident uris options)]))"
  "reorderItems_io env ident uris options (c, []) =
     (case and_then (fetch env (reorder_request ident uris options))
             (\<lambda>res. getprop res ''snapshot_id'') of
        Inl e \<Rightarrow> (or_default (handleError env e) JNull, c,
                  [Request (reorder_request ident uris options), Caught e])
      | Inr v \<Rightarrow> (Inr v, c, [Request (reorder_request ident uris options)]))"
  "removeItems_io env ident uris snapshotID (c, []) =
     (case and_then (fetch env (remove_request ident uris snapshotID))
             (\<lambda>res. getprop res ''snapshot_id'') of
        Inl e \<Rightarrow> (or_default (handleError env e) JNull, c,
                  [Request (remove_request ident uris snapshotID), Caught e])
      | Inr v \<Rightarrow> (Inr v, c, [Request (remove_request ident uris snapshotID)]))"
  "uploadImage_io env ident img (c, []) =
     (case and_then (fetch env (upload_request ident img)) (\<lambda>res. Inr (JBool True)) of
        Inl e \<Rightarrow> (or_default (handleError env e) (JBool False), c,
                  [Request (upload_request ident img), Caught e])
      | Inr v \<Rightarrow> (Inr v, c, [Request (upload_request ident img)]))"
  by (auto simp: getTracks_io_def getTracks_old_io_def addItems_io_def reorderItems_io_def
      removeItems_io_def uploadImage_io_def try_run then_http then_pair lift_def ret_def
      and_then_def
      split: sum.splits)

lemma plain_io_run:
  "getImages_io env ident (c, []) =
     (case fetch env (images_request ident) of
        Inl e \<Rightarrow> (or_default (handleError env e) (JArr []), c,
                  [Request (images_request ident), Caught e])
      | Inr v \<Rightarrow> (Inr v, c, [Request (images_request ident)]))"
  "getImages_old_io env ident (c, []) =
     (case fetch env (images_request ident) of
        Inl e \<Rightarrow> (or_default (handleError env e) (JArr []), c,
                  [Request (images_request ident), Caught e])
      | Inr v \<Rightarrow> (Inr v, c, [Request (images_request ident)]))"
  "userFollows_io env ident ids (c, []) =
     (case fetch env (follows_request ident ids) of
        Inl e \<Rightarrow> (or_default (handleError env e) (JArr []), c,
                  [Request (follows_request ident ids), Caught e])
      | Inr v \<Rightarrow> (Inr v, c, [Request (follows_request ident ids)]))"
  by (auto simp: getImages_io_def getImages_old_io_def userFollows_io_def try_run http_def
      then_emit lift_def
      split: sum.splits)

lemma search_io_agrees:
  "o_result (exec cl (search_io env cl q options)) = result (search env cl q options)"
  "o_cache (exec cl (search_io env cl q options)) = cache (search env cl q options)"
  "requests_of (o_trace (exec cl (search_io env cl q options))) =
     requests (search env cl q options)"
  "kept_of (o_trace (exec cl (search_io env cl q options))) = fresh (search env cl q options)"
  by (auto simp: exec_def search_io_run search_def search_try_def kept_of_def Let_def
      split: sum.splits)

lemma get_io_agrees:
  "o_result (exec cl (get_io env cl ident force market)) =
     result (get env cl ident force market)"
  "o_cache (exec cl (get_io env cl ident force market)) =
     cache (get env cl ident force market)"
  "requests_of (o_trace (exec cl (get_io env cl ident force market))) =
     requests (get env cl ident force market)"
  "kept_of (o_trace (exec cl (get_io env cl ident force market))) =
     fresh (get env cl ident force market)"
  by (auto simp: exec_def get_io_run get_def get_fetch_def cached_def kept_of_def
      split: sum.splits option.splits)

lemma perform_io_agrees:
  "o_result (exec cl (perform_io env cl c)) = result (perform env cl c)"
  "o_cache (exec cl (perform_io env cl c)) = cache (perform env cl c)"
  "requests_of (o_trace (exec cl (perform_io env cl c))) = requests (perform env cl c)"
  "kept_of (o_trace (exec cl (perform_io env cl c))) = fresh (perform env cl c)"
  by (cases c; simp add: perform_io_def perform_def search_io_agrees get_io_agrees)+

lemma others_io_agree:
  "o_result (exec cl (getTracks_io env ident options)) =
     result (getTracks env cl ident options)"
  "o_result (exec cl (getImages_io env ident)) = result (getImages env cl ident)"
  "o_result (exec cl (userFollows_io env ident ids)) = result (userFollows env cl ident ids)"
  "o_result (exec cl (addItems_io env ident uris options)) =
     result (addItems env cl ident uris options)"
  "o_result (exec cl (reorderItems_io env ident uris options)) =
     result (reorderItems env cl ident uris options)"
  "o_result (exec cl (removeItems_io env ident uris snapshotID)) =
     result (removeItems env cl ident uris snapshotID)"
  "o_result (exec cl (uploadImage_io env ident img)) = result (uploadImage env cl ident img)"
  "o_result (exec cl (getTracks_old_io env ident options)) =
     result (getTracks_old env cl ident options)"
  "o_result (exec cl (getImages_old_io env ident)) = result (getImages_old env cl ident)"
  by (auto simp: exec_def parsing_io_run plain_io_run getTracks_def getImages_def
      userFollows_def addItems_def reorderItems_def removeItems_def uploadImage_def
      getTracks_old_def getImages_old_def fetched_def try_catch_def Let_def
      split: sum.splits)









section \<open>A rejected fetch and the shared handler\<close>

lemma search_rejected:
  "fetch env (search_request q options) = Inl e \<Longrightarrow>
   search env cl q options =
     \<lparr>result = or_default (handleError env e) empty_paging, cache = cache_playlists cl,
      requests = [search_request q options], fresh = []\<rparr>"
  by (simp add: search_def search_try_def Let_def)

lemma get_rejected:
  "cached cl ident (force_of cl force) = None \<Longrightarrow>
   fetch env (playlist_request ident (market_of market)) = Inl e \<Longrightarrow>
   get env cl ident force market =
     \<lparr>result = handleError env e, cache = cache_playlists cl,
      requests = [playlist_request ident (market_of market)], fresh = []\<rparr>"
  by (simp add: get_def get_fetch_def)

lemma getTracks_rejected:
  "fetch env (tracks_request ident options) = Inl e \<Longrightarrow>
   result (getTracks env cl ident options) = or_default (handleError env e) empty_paging"
  by (simp add: getTracks_def fetched_def try_catch_def and_then_def Let_def)

lemma getImages_rejected:
  "fetch env (images_request ident) = Inl e \<Longrightarrow>
   result (getImages env cl ident) = or_default (handleError env e) (JArr [])"
  by (simp add: getImages_def fetched_def try_catch_def and_then_def Let_def)

lemma userFollows_rejected:
  "fetch env (follows_request ident ids) = Inl e \<Longrightarrow>
   result (userFollows env cl ident ids) = or_default (handleError env e) (JArr [])"
  by (simp add: userFollows_def fetched_def try_catch_def and_then_def Let_def)

lemma uploadImage_rejected:
  "fetch env (upload_request ident img) = Inl e \<Longrightarrow>
   result (uploadImage env cl ident img) = or_default (handleError env e) (JBool False)"
  by (simp add: uploadImage_def fetched_def try_catch_def and_then_def Let_def)

lemma addItems_rejected:
  "fetch env (add_request ident uris options) = Inl e \<Longrightarrow>
   result (addItems env cl ident uris options) = or_default (handleError env e) JNull"
  by (simp add: addItems_def fetched_def try_catch_def and_then_def Let_def)

lemma reorderItems_rejected:
  "fetch env (reorder_request ident uris options) = Inl e \<Longrightarrow>
   result (reorderItems env cl ident uris options) = or_default (handleError env e) JNull"
  by (simp add: reorderItems_def fetched_def try_catch_def and_then_def Let_def)

lemma removeItems_rejected:
  "fetch env (remove_request ident uris snapshotID) = Inl e \<Longrightarrow>
   result (removeItems env cl ident uris snapshotID) = or_default (handleError env e) JNull"
  by (simp add: removeItems_def fetched_def try_catch_def and_then_def Let_def)

text \<open>
  Claim C1. Take a call of one of the nine methods of the playlist manager that use
  \<open>this.fetch\<close>, in which \<open>fetch\<close> rejects with \<open>e\<close>. What the call does is decided
  by the shared handler applied to that very error. If \<open>handleError(e)\<close> throws, the
  call rejects with what it threw. If it returns a value \<open>h\<close>, the call resolves: with
  \<open>h\<close> when \<open>h\<close> is truthy, and when the handler yields no value (a falsy \<open>h\<close>, such
  as \<open>null\<close>) with the default of the call site, which is the empty paging object for
  \<open>search\<close> and \<open>getTracks\<close>, the empty array for \<open>getImages\<close> and \<open>userFollows\<close>,
  \<open>false\<close> for \<open>uploadImage\<close>, and \<open>null\<close> for \<open>addItems\<close>, \<open>reorderItems\<close> and
  \<open>removeItems\<close>. \<open>get\<close> (when it fetches at all, that is, when the cache is not
  used) has no default: it settles exactly as \<open>handleError(e)\<close> does. The five methods
  that delegate to \<open>client.user\<close> make no call of \<open>fetch\<close> of their own.
\<close>

theorem rejected_fetch_goes_through_handler:
    "(fetch env (search_request q options) = Inl e \<longrightarrow>
        result (search env cl q options) =
          (case handleError env e of
             Inl e' \<Rightarrow> Inl e'
           | Inr h \<Rightarrow> Inr (if truthy h then h else JObj [(''limit'', JNum 0), (''offset'', JNum 0), (''total'', JNum 0),
                     (''items'', JArr [])]))) \<and>
     (fetch env (tracks_request ident options) = Inl e \<longrightarrow>
        result (getTracks env cl ident options) =
          (case handleError env e of
             Inl e' \<Rightarrow> Inl e'
           | Inr h \<Rightarrow> Inr (if truthy h then h else JObj [(''limit'', JNum 0), (''offset'', JNum 0), (''total'', JNum 0),
                     (''items'', JArr [])]))) \<and>
     (fetch env (images_request ident) = Inl e \<longrightarrow>
        result (getImages env cl ident) =
          (case handleError env e of
             Inl e' \<Rightarrow> Inl e'
           | Inr h \<Rightarrow> Inr (if truthy h then h else JArr []))) \<and>
     (fetch env (follows_request ident ids) = Inl e \<longrightarrow>
        result (userFollows env cl ident ids) =
          (case handleError env e of
             Inl e' \<Rightarrow> Inl e'
           | Inr h \<Rightarrow> Inr (if truthy h then h else JArr []))) \<and>
     (fetch env (upload_request ident img) = Inl e \<longrightarrow>
        result (uploadImage env cl ident img) =
          (case handleError env e of
             Inl e' \<Rightarrow> Inl e'
           | Inr h \<Rightarrow> Inr (if truthy h then h else JBool False))) \<and>
     (fetch env (add_request ident uris options) = Inl e \<longrightarrow>
        result (addItems env cl ident uris options) =
          (case handleError env e of
             Inl e' \<Rightarrow> Inl e'
           | Inr h \<Rightarrow> Inr (if truthy h then h else JNull))) \<and>
     (fetch env (reorder_request ident uris options) = Inl e \<longrightarrow>
        result (reorderItems env cl ident uris options) =
          (case handleError env e of
             Inl e' \<Rightarrow> Inl e'
           | Inr h \<Rightarrow> Inr (if truthy h then h else JNull))) \<and>
     (fetch env (remove_request ident uris snapshotID) = Inl e \<longrightarrow>
        result (removeItems env cl ident uris snapshotID) =
          (case handleError env e of
             Inl e' \<Rightarrow> Inl e'
           | Inr h \<Rightarrow> Inr (if truthy h then h else JNull))) \<and>
     (cached cl ident (force_of cl force) = None \<and>
      fetch env (playlist_request ident (market_of market)) = Inl e \<longrightarrow>
        result (get env cl ident force market) = handleError env e)"
  by (simp add: search_rejected get_rejected getTracks_rejected getImages_rejected
      userFollows_rejected uploadImage_rejected addItems_rejected reorderItems_rejected
      removeItems_rejected or_default_def empty_paging_def)

theorem rejected_fetch_goes_through_handler_witness:
  "fetch offline_env = (\<lambda>r. Inl (JsError (JStr ''offline''))) \<and>
   fetch strict_env = (\<lambda>r. Inl (JsError (JStr ''offline''))) \<and>
   handleError offline_env (JsError (JStr ''offline'')) = Inr JNull \<and>
   handleError strict_env (JsError (JStr ''offline'')) =
     Inl (UnexpectedError (JsError (JStr ''offline''))) \<and>
   cached demo_client ''p1'' (force_of demo_client None) = None \<and>
   result (search offline_env demo_client ''jazz'' None) =
     Inr (JObj [(''limit'', JNum 0), (''offset'', JNum 0), (''total'', JNum 0),
                (''items'', JArr [])]) \<and>
   result (getTracks offline_env demo_client ''p1'' None) =
     Inr (JObj [(''limit'', JNum 0), (''offset'', JNum 0), (''total'', JNum 0),
                (''items'', JArr [])]) \<and>
   result (getImages offline_env demo_client ''p1'') = Inr (JArr []) \<and>
   result (userFollows offline_env demo_client ''p1'' [''u1'', ''u2'']) = Inr (JArr []) \<and>
   result (uploadImage offline_env demo_client ''p1'' ''/9j/4AAQ'') = Inr (JBool False) \<and>
   result (addItems offline_env demo_client ''p1'' [''spotify:track:t1''] None) = Inr JNull \<and>
   result (reorderItems offline_env demo_client ''p1'' [''spotify:track:t1''] None) =
     Inr JNull \<and>
   result (removeItems offline_env demo_client ''p1'' [''spotify:track:t1''] None) =
     Inr JNull \<and>
   result (get offline_env demo_client ''p1'' None None) = Inr JNull \<and>
   result (getImages strict_env demo_client ''p1'') =
     Inl (UnexpectedError (JsError (JStr ''offline''))) \<and>
   result (search strict_env demo_client ''jazz'' None) =
     Inl (UnexpectedError (JsError (JStr ''offline''))) \<and>
   result (get strict_env demo_client ''p1'' None None) =
     Inl (UnexpectedError (JsError (JStr ''offline'')))"
proof -
  let ?e = "JsError (JStr ''offline'')"
  have f: "fetch offline_env = (\<lambda>r. Inl ?e)" "fetch strict_env = (\<lambda>r. Inl ?e)"
    by (simp_all add: strict_env_def offline_env_def)
  have h: "handleError offline_env ?e = Inr JNull"
    "handleError strict_env ?e = Inl (UnexpectedError ?e)"
    by (simp_all add: strict_env_def offline_env_def demo_env_def)
  have c: "cached demo_client ''p1'' (force_of demo_client None) = None"
    by (simp add: cached_def demo_client_def force_of_def)
  note w = rejected_fetch_goes_through_handler [where e = ?e and q = "''jazz''"
      and cl = demo_client and ident = "''p1''" and options = None
      and ids = "[''u1'', ''u2'']" and img = "''/9j/4AAQ''"
      and uris = "[''spotify:track:t1'']" and snapshotID = None and force = None
      and market = None]
  show ?thesis
    using w [where env = offline_env] w [where env = strict_env] f h c
    by simp
qed

section \<open>The request and the result of \<open>search\<close>\<close>

lemma search_requests: "requests (search env cl q options) = [search_request q options]"
  by (simp add: search_def Let_def split: prod.splits sum.splits)

lemma search_success:
  assumes "fetch env (search_request q options) = Inr res"
    and "getprop res ''playlists'' = Inr data"
    and "getprop data ''items'' = Inr (JArr xs)"
    and "map_throw (Playlist env) xs = Inr ps"
  shows "search env cl q options =
           \<lparr>result = Inr (paging data (map JObj ps)),
            cache = (if cachePlaylists cl then cache_all ps (cache_playlists cl)
                     else cache_playlists cl),
            requests = [search_request q options], fresh = ps\<rparr>"
  using assms by (simp add: search_def search_try_def Let_def)

text \<open>
  Claim C5. For every query and every options object (its keys distinct, as those of an
  object are), \<open>search\<close> sends exactly one request, a plain request to the path
  \<open>/search\<close> whose parameters are the options with \<open>type\<close> set to \<open>playlist\<close> and
  \<open>q\<close> set to the query. When the response has a \<open>playlists\<close> envelope whose \<open>items\<close>
  is an array and every item is accepted by the constructor, the call resolves with the
  paging object made of the envelope's \<open>limit\<close>, \<open>offset\<close> and \<open>total\<close> and of the
  playlists built from the items, item by item in the order of the response.
\<close>

theorem search_request_and_result:
  assumes "distinct (map fst (case options of None \<Rightarrow> [] | Some ps \<Rightarrow> ps))"
  shows "requests (search env cl q options) = [search_request q options] \<and>
         search_request q options =
           \<lparr>req_path = ''/search'', req_method = None, req_headers = None,
            req_params =
              Some (set_field ''q'' (JStr q)
                     (set_field ''type'' (JStr ''playlist'')
                        (case options of None \<Rightarrow> [] | Some ps \<Rightarrow> ps))),
            req_body = None\<rparr> \<and>
         map_of (set_field ''q'' (JStr q)
                  (set_field ''type'' (JStr ''playlist'')
                     (case options of None \<Rightarrow> [] | Some ps \<Rightarrow> ps))) =
           (map_of (case options of None \<Rightarrow> [] | Some ps \<Rightarrow> ps))
             (''type'' \<mapsto> JStr ''playlist'', ''q'' \<mapsto> JStr q) \<and>
         (fetch env (search_request q options) = Inr res \<and>
          getprop res ''playlists'' = Inr data \<and>
          getprop data ''items'' = Inr (JArr xs) \<and>
          map_throw (Playlist env) xs = Inr ps \<longrightarrow>
          result (search env cl q options) =
            Inr (JObj [(''limit'', field_of data ''limit''),
                       (''offset'', field_of data ''offset''),
                       (''total'', field_of data ''total''),
                       (''items'', JArr (map JObj ps))]) \<and>
          map (Playlist env) xs = map Inr ps)"
proof -
  have "search_request q options =
           \<lparr>req_path = ''/search'', req_method = None, req_headers = None,
            req_params =
              Some (set_field ''q'' (JStr q)
                     (set_field ''type'' (JStr ''playlist'')
                        (case options of None \<Rightarrow> [] | Some ps \<Rightarrow> ps))),
            req_body = None\<rparr>"
    by (simp add: search_request_def get_request_def spread_opt_distinct [OF assms])
  then show ?thesis
    by (auto simp: search_requests search_success paging_def map_of_set_field
        dest: map_throw_Inr)
qed

theorem search_request_and_result_witness:
  "distinct (map fst [(''limit'', JNum 20)]) \<and>
   requests (search demo_env demo_client ''jazz'' (Some [(''limit'', JNum 20)])) =
     [\<lparr>req_path = ''/search'', req_method = None, req_headers = None,
       req_params =
         Some [(''limit'', JNum 20), (''type'', JStr ''playlist''), (''q'', JStr ''jazz'')],
       req_body = None\<rparr>] \<and>
   result (search demo_env demo_client ''jazz'' (Some [(''limit'', JNum 20)])) =
     Inr (JObj [(''limit'', JNum 20), (''offset'', JNum 0), (''total'', JNum 2),
                (''items'',
                 JArr [JObj [(''id'', JStr ''p1''), (''name'', JStr ''Morning'')],
                       JObj [(''id'', JStr ''p2''), (''name'', JStr ''Evening'')]])])"
proof -
  have d: "distinct (map fst (case Some [(''limit'', JNum 20)] of None \<Rightarrow> [] | Some ps \<Rightarrow> ps))"
    by simp
  have r: "search_request ''jazz'' (Some [(''limit'', JNum 20)]) =
             \<lparr>req_path = ''/search'', req_method = None, req_headers = None,
              req_params =
                Some [(''limit'', JNum 20), (''type'', JStr ''playlist''),
                      (''q'', JStr ''jazz'')],
              req_body = None\<rparr>"
    by (simp add: search_request_def get_request_def spread_opt_def spread_def)
  have f: "fetch demo_env (search_request ''jazz'' (Some [(''limit'', JNum 20)])) =
             Inr demo_search_response"
    by (simp add: r demo_env_def demo_fetch_def)
  have p: "getprop demo_search_response ''playlists'' = Inr demo_envelope"
    by (simp add: getprop_def nullish_def demo_search_response_def get_field_def)
  have i: "getprop demo_envelope ''items'' = Inr (JArr (map JObj demo_playlists))"
    by (simp add: getprop_def nullish_def demo_envelope_def get_field_def)
  have m: "map_throw (Playlist demo_env) (map JObj demo_playlists) = Inr demo_playlists"
    by (simp add: demo_env_def demo_playlists_def mirror_def)
  show ?thesis
    using search_request_and_result [OF d, of demo_env demo_client "''jazz''"
        demo_search_response demo_envelope "map JObj demo_playlists" demo_playlists]
      f p i m
    by (simp add: r demo_envelope_def demo_playlists_def get_field_def)
qed

section \<open>The cache along a sequence of calls\<close>

lemma cache_all_snoc: "cache_all (ps @ [p]) c = (cache_all ps c)(get_field p ''id'' \<mapsto> p)"
  by (simp add: cache_all_def)

lemma cache_all_Nil: "cache_all [] c = c"
  by (simp add: cache_all_def)

lemma latest_last:
  "latest log k =
     (if filter (\<lambda>p. get_field p ''id'' = k) log = [] then None
      else Some (last (filter (\<lambda>p. get_field p ''id'' = k) log)))"
  by (simp add: latest_def split: list.splits)

lemma latest_snoc: "latest (log @ [p]) = (latest log)(get_field p ''id'' \<mapsto> p)"
  by (rule ext) (simp add: latest_last)

lemma latest_append: "latest (log @ ps) = cache_all ps (latest log)"
proof (induction ps rule: rev_induct)
  case Nil
  show ?case by (simp add: cache_all_Nil)
next
  case (snoc p ps)
  have "latest (log @ ps @ [p]) = (latest (log @ ps))(get_field p ''id'' \<mapsto> p)"
    using latest_snoc [of "log @ ps" p] by simp
  with snoc show ?case by (simp add: cache_all_snoc)
qed

lemma dom_cache_all: "dom (cache_all ps c) = dom c \<union> (\<lambda>p. get_field p ''id'') ` set ps"
proof (induction ps rule: rev_induct)
  case Nil
  show ?case by (simp add: cache_all_Nil)
next
  case (snoc p ps)
  have "dom (cache_all (ps @ [p]) c) = insert (get_field p ''id'') (dom (cache_all ps c))"
    by (simp add: cache_all_snoc)
  with snoc show ?case by simp
qed

lemma cache_all_own_id:
  "(\<And>k p. c k = Some p \<Longrightarrow> get_field p ''id'' = k) \<Longrightarrow>
   cache_all ps c k = Some p \<Longrightarrow> get_field p ''id'' = k"
  by (induction ps arbitrary: k p rule: rev_induct)
     (auto simp: cache_all_snoc cache_all_Nil split: if_splits)

lemma get_cache:
  "cache (get env cl ident force market) =
     (if cachePlaylists cl
      then cache_all (fresh (get env cl ident force market)) (cache_playlists cl)
      else cache_playlists cl)"
  by (simp add: get_def get_fetch_def cache_all_def split: option.splits sum.splits)

lemma search_cache:
  "cache (search env cl q options) =
     (if cachePlaylists cl
      then cache_all (fresh (search env cl q options)) (cache_playlists cl)
      else cache_playlists cl)"
  by (simp add: search_def search_try_def cache_all_def Let_def split: sum.splits)

lemma perform_cache:
  "cache (perform env cl c) =
     (if cachePlaylists cl then cache_all (fresh (perform env cl c)) (cache_playlists cl)
      else cache_playlists cl)"
  by (cases c) (simp_all only: perform_def call.case get_cache search_cache)



lemma perform_cachePlaylists_step:
  "cachePlaylists (cl\<lparr>cache_playlists := c\<rparr>) = cachePlaylists cl"
  by simp

lemma run_step:
  "run env (step # steps) (cl, log) =
     run env steps
       (cl\<lparr>cache_playlists := cache (perform (env\<lparr>fetch := fst step\<rparr>) cl (snd step))\<rparr>,
        log @ fresh (perform (env\<lparr>fetch := fst step\<rparr>) cl (snd step)))"
  by (simp add: Let_def)

lemma run_cachePlaylists:
  "run env steps (cl, log) = (cl', log') \<Longrightarrow> cachePlaylists cl' = cachePlaylists cl"
proof (induction steps arbitrary: cl log)
  case Nil
  then show ?case by simp
next
  case (Cons step steps)
  from Cons.prems show ?case
    unfolding run_step by (auto dest: Cons.IH)
qed

lemma run_latest:
  "run env steps (cl, log) = (cl', log') \<Longrightarrow> cachePlaylists cl \<Longrightarrow>
   cache_playlists cl = latest log \<Longrightarrow> cache_playlists cl' = latest log'"
proof (induction steps arbitrary: cl log)
  case Nil
  then show ?case by simp
next
  case (Cons step steps)
  let ?out = "perform (env\<lparr>fetch := fst step\<rparr>) cl (snd step)"
  have "cache ?out = latest (log @ fresh ?out)"
    using Cons.prems(2,3) by (simp add: perform_cache latest_append)
  with Cons.prems(1,2) show ?case
    unfolding run_step by (intro Cons.IH [of "cl\<lparr>cache_playlists := cache ?out\<rparr>"]) simp_all
qed

lemma run_no_write:
  "run env steps (cl, log) = (cl', log') \<Longrightarrow> \<not> cachePlaylists cl \<Longrightarrow>
   cache_playlists cl' = cache_playlists cl"
proof (induction steps arbitrary: cl log)
  case Nil
  then show ?case by simp
next
  case (Cons step steps)
  let ?out = "perform (env\<lparr>fetch := fst step\<rparr>) cl (snd step)"
  have c: "cache ?out = cache_playlists cl"
    using Cons.prems(2) by (simp add: perform_cache)
  from Cons.prems have "cache_playlists cl' = cache_playlists (cl\<lparr>cache_playlists := cache ?out\<rparr>)"
    unfolding run_step by (intro Cons.IH) simp_all
  with c show ?case by simp
qed

lemma run_own_id:
  "run env steps (cl, log) = (cl', log') \<Longrightarrow>
   (\<And>k p. cache_playlists cl k = Some p \<Longrightarrow> get_field p ''id'' = k) \<Longrightarrow>
   cache_playlists cl' k = Some p \<Longrightarrow> get_field p ''id'' = k"
proof (induction steps arbitrary: cl log)
  case Nil
  then show ?case by simp
next
  case (Cons step steps)
  let ?out = "perform (env\<lparr>fetch := fst step\<rparr>) cl (snd step)"
  have own: "get_field p' ''id'' = k'" if "cache ?out k' = Some p'" for k' p'
    using that Cons.prems(2) cache_all_own_id [of "cache_playlists cl" "fresh ?out" k' p']
    by (simp add: perform_cache split: if_splits)
  show ?case
  proof (rule Cons.IH [of "cl\<lparr>cache_playlists := cache ?out\<rparr>" "log @ fresh ?out"])
    show "run env steps (cl\<lparr>cache_playlists := cache ?out\<rparr>, log @ fresh ?out) = (cl', log')"
      using Cons.prems(1) unfolding run_step .
    show "cache_playlists cl' k = Some p" by (rule Cons.prems(3))
    show "get_field p' ''id'' = k'"
      if "cache_playlists (cl\<lparr>cache_playlists := cache ?out\<rparr>) k' = Some p'" for k' p'
      using that own by simp
  qed
qed

lemma run_dom:
  "run env steps (cl, log) = (cl', log') \<Longrightarrow>
   dom (cache_playlists cl) \<subseteq> dom (cache_playlists cl')"
proof (induction steps arbitrary: cl log)
  case Nil
  then show ?case by simp
next
  case (Cons step steps)
  let ?out = "perform (env\<lparr>fetch := fst step\<rparr>) cl (snd step)"
  have "dom (cache_playlists cl) \<subseteq> dom (cache ?out)"
    by (simp add: perform_cache dom_cache_all)
  moreover from Cons.prems
  have "dom (cache_playlists (cl\<lparr>cache_playlists := cache ?out\<rparr>)) \<subseteq> dom (cache_playlists cl')"
    unfolding run_step by (rule Cons.IH)
  ultimately show ?case by simp
qed

lemma demo_search:
  "search demo_env demo_client ''jazz'' None =
     \<lparr>result = Inr (paging demo_envelope (map JObj demo_playlists)),
      cache = cache_all demo_playlists Map.empty,
      requests = [search_request ''jazz'' None], fresh = demo_playlists\<rparr>"
proof -
  have f: "fetch demo_env (search_request ''jazz'' None) = Inr demo_search_response"
    by (simp add: demo_env_def demo_fetch_def search_request_def get_request_def)
  have p: "getprop demo_search_response ''playlists'' = Inr demo_envelope"
    by (simp add: getprop_def nullish_def demo_search_response_def get_field_def)
  have i: "getprop demo_envelope ''items'' = Inr (JArr (map JObj demo_playlists))"
    by (simp add: getprop_def nullish_def demo_envelope_def get_field_def)
  have m: "map_throw (Playlist demo_env) (map JObj demo_playlists) = Inr demo_playlists"
    by (simp add: demo_env_def demo_playlists_def mirror_def)
  show ?thesis
    using search_success [OF f p i m, of demo_client] by (simp add: demo_client_def)
qed

lemma demo_run:
  "run demo_env demo_steps (demo_client, []) =
     (demo_client\<lparr>cache_playlists :=
        (cache_all demo_playlists Map.empty)(JStr ''p1'' \<mapsto> renamed_playlist)\<rparr>,
      demo_playlists @ [renamed_playlist])"
proof -
  have e: "demo_env\<lparr>fetch := demo_fetch\<rparr> = demo_env"
    by (simp add: demo_env_def)
  have g: "get (demo_env\<lparr>fetch := later_fetch\<rparr>) cl ''p1'' (Some True) None =
     \<lparr>result = Inr (JObj renamed_playlist),
      cache = (if cachePlaylists cl then (cache_playlists cl)(JStr ''p1'' \<mapsto> renamed_playlist)
               else cache_playlists cl),
      requests = [playlist_request ''p1'' ''US''], fresh = [renamed_playlist]\<rparr>" for cl
    by (simp add: get_def get_fetch_def cached_def force_of_def market_of_def demo_env_def
        later_fetch_def playlist_request_def get_request_def mirror_def renamed_playlist_def
        get_field_def)
  have s1: "perform (demo_env\<lparr>fetch := demo_fetch\<rparr>) demo_client (Search ''jazz'' None) =
     \<lparr>result = Inr (paging demo_envelope (map JObj demo_playlists)),
      cache = cache_all demo_playlists Map.empty,
      requests = [search_request ''jazz'' None], fresh = demo_playlists\<rparr>"
    by (simp add: perform_def e demo_search)
  have s2: "perform (demo_env\<lparr>fetch := later_fetch\<rparr>)
              (demo_client\<lparr>cache_playlists := cache_all demo_playlists Map.empty\<rparr>)
              (Get ''p1'' (Some True) None) =
     \<lparr>result = Inr (JObj renamed_playlist),
      cache = (cache_all demo_playlists Map.empty)(JStr ''p1'' \<mapsto> renamed_playlist),
      requests = [playlist_request ''p1'' ''US''], fresh = [renamed_playlist]\<rparr>"
    by (simp add: perform_def g) (simp add: demo_client_def)
  have "run demo_env demo_steps (demo_client, []) =
        run demo_env [(later_fetch, Get ''p1'' (Some True) None)]
          (demo_client\<lparr>cache_playlists := cache_all demo_playlists Map.empty\<rparr>,
           demo_playlists)"
    unfolding demo_steps_def run_step by (simp add: s1)
  also have "\<dots> =
     (demo_client\<lparr>cache_playlists :=
        (cache_all demo_playlists Map.empty)(JStr ''p1'' \<mapsto> renamed_playlist)\<rparr>,
      demo_playlists @ [renamed_playlist])"
    unfolding run_step by (simp add: s2)
  finally show ?thesis .
qed

text \<open>The logged run and the summary run agree, so the facts above carry over.\<close>

lemma run_io_step:
  "run_io env (step # steps) h =
     run_io env steps
       \<lparr>h_client = (h_client h)\<lparr>cache_playlists :=
            o_cache (exec (h_client h)
              (perform_io (env\<lparr>fetch := fst step\<rparr>) (h_client h) (snd step)))\<rparr>,
        h_built = h_built h @
            built_of (o_trace (exec (h_client h)
              (perform_io (env\<lparr>fetch := fst step\<rparr>) (h_client h) (snd step)))),
        h_kept = h_kept h @
            kept_of (o_trace (exec (h_client h)
              (perform_io (env\<lparr>fetch := fst step\<rparr>) (h_client h) (snd step))))\<rparr>"
  by (simp add: Let_def)

lemma run_io_run:
  "run env steps (h_client h, h_kept h) =
     (h_client (run_io env steps h), h_kept (run_io env steps h))"
proof (induction steps arbitrary: h)
  case Nil
  show ?case by simp
next
  case (Cons step steps)
  let ?out = "exec (h_client h) (perform_io (env\<lparr>fetch := fst step\<rparr>) (h_client h) (snd step))"
  let ?h = "\<lparr>h_client = (h_client h)\<lparr>cache_playlists := o_cache ?out\<rparr>,
            h_built = h_built h @ built_of (o_trace ?out),
            h_kept = h_kept h @ kept_of (o_trace ?out)\<rparr>"
  have "run env (step # steps) (h_client h, h_kept h) = run env steps (h_client ?h, h_kept ?h)"
    by (simp add: Let_def perform_io_agrees)
  also have "\<dots> = (h_client (run_io env steps ?h), h_kept (run_io env steps ?h))"
    by (rule Cons.IH)
  also have "run_io env steps ?h = run_io env (step # steps) h"
    by (simp add: Let_def)
  finally show ?case .
qed

lemma kept_among_built: "set (kept_of t) \<subseteq> set (built_of t)"
  by (simp add: kept_of_def)

lemma run_io_kept_built:
  "set (h_kept h) \<subseteq> set (h_built h) \<Longrightarrow>
   set (h_kept (run_io env steps h)) \<subseteq> set (h_built (run_io env steps h))"
proof (induction steps arbitrary: h)
  case Nil
  then show ?case by simp
next
  case (Cons step steps)
  show ?case
    unfolding run_io_step
    by (rule Cons.IH) (use Cons.prems kept_among_built in auto)
qed

lemma get_io_exec:
  "exec cl (get_io env cl ident force market) =
     (case cached cl ident (force_of cl force) of
        Some p \<Rightarrow> \<lparr>o_result = Inr (JObj p), o_cache = cache_playlists cl, o_trace = []\<rparr>
      | None \<Rightarrow>
     (case and_then (fetch env (playlist_request ident (market_of market))) (Playlist env) of
        Inl e \<Rightarrow>
          \<lparr>o_result = handleError env e, o_cache = cache_playlists cl,
           o_trace = [Request (playlist_request ident (market_of market)), Caught e]\<rparr>
      | Inr p \<Rightarrow>
          \<lparr>o_result = Inr (JObj p),
           o_cache = (if cachePlaylists cl then (cache_playlists cl)(get_field p ''id'' \<mapsto> p)
                      else cache_playlists cl),
           o_trace = [Request (playlist_request ident (market_of market)), Built p]\<rparr>))"
  by (auto simp: exec_def get_io_run cached_def and_then_def split: sum.splits option.splits)

lemma search_io_exec:
  "exec cl (search_io env cl q options) =
     (case and_then (fetch env (search_request q options)) (\<lambda>res.
           and_then (getprop res ''playlists'') (\<lambda>data.
           and_then (getprop data ''items'') (\<lambda>its. Inr (data, its)))) of
        Inl e \<Rightarrow>
          \<lparr>o_result = or_default (handleError env e) empty_paging,
           o_cache = cache_playlists cl,
           o_trace = [Request (search_request q options), Caught e]\<rparr>
      | Inr (data, its) \<Rightarrow>
     (case js_map (Playlist env) its of
        Inl e \<Rightarrow>
          \<lparr>o_result = or_default (handleError env e) empty_paging,
           o_cache = cache_playlists cl,
           o_trace = Request (search_request q options) #
             map Built (case its of JArr xs \<Rightarrow> built_before (Playlist env) xs | _ \<Rightarrow> []) @
             [Caught e]\<rparr>
      | Inr ps \<Rightarrow>
          \<lparr>o_result = Inr (paging data (map JObj ps)),
           o_cache = (if cachePlaylists cl then cache_all ps (cache_playlists cl)
                      else cache_playlists cl),
           o_trace = Request (search_request q options) # map Built ps\<rparr>))"
  by (auto simp: exec_def search_io_run and_then_def split: sum.splits)

lemma built_before_sound:
  "p \<in> set (built_before ctor xs) \<Longrightarrow> \<exists>x \<in> set xs. ctor x = Inr p"
  by (induction xs) (auto split: sum.splits)

lemma stale_run:
  "run_io demo_env stale_steps new_history =
     \<lparr>h_client = demo_client\<lparr>cache_playlists := [JStr ''p1'' \<mapsto> old_playlist]\<rparr>,
      h_built = [old_playlist, new_playlist], h_kept = [old_playlist]\<rparr>"
proof -
  have g: "exec demo_client
             (get_io (demo_env\<lparr>fetch := old_fetch\<rparr>) demo_client ''p1'' None None) =
     \<lparr>o_result = Inr (JObj old_playlist), o_cache = [JStr ''p1'' \<mapsto> old_playlist],
      o_trace = [Request (playlist_request ''p1'' ''US''), Built old_playlist]\<rparr>"
    by (simp add: get_io_exec cached_def force_of_def market_of_def demo_client_def
        demo_env_def old_fetch_def playlist_request_def get_request_def and_then_def
        mirror_def old_playlist_def get_field_def)
  have s: "exec cl (search_io (demo_env\<lparr>fetch := broken_fetch\<rparr>) cl ''p'' None) =
     \<lparr>o_result = Inr empty_paging, o_cache = cache_playlists cl,
      o_trace = [Request (search_request ''p'' None), Built new_playlist, Caught TypeError]\<rparr>"
    for cl
    by (simp add: search_io_exec demo_env_def broken_fetch_def search_request_def
        get_request_def and_then_def getprop_def nullish_def get_field_def
        mirror_def or_default_def)
  show ?thesis
    unfolding stale_steps_def run_io_step
    by (simp add: new_history_def perform_io_def g s kept_of_def)
qed

lemma run_io_latest:
  "cachePlaylists (h_client h) \<Longrightarrow> cache_playlists (h_client h) = latest (h_kept h) \<Longrightarrow>
   cache_playlists (h_client (run_io env steps h)) = latest (h_kept (run_io env steps h))"
  using run_latest [OF run_io_run] .

lemma run_io_no_write:
  "\<not> cachePlaylists (h_client h) \<Longrightarrow>
   cache_playlists (h_client (run_io env steps h)) = cache_playlists (h_client h)"
  using run_no_write [OF run_io_run] .

lemma run_io_own_id:
  "(\<And>k p. cache_playlists (h_client h) k = Some p \<Longrightarrow> get_field p ''id'' = k) \<Longrightarrow>
   cache_playlists (h_client (run_io env steps h)) k = Some p \<Longrightarrow> get_field p ''id'' = k"
  using run_own_id [OF run_io_run] by blast

lemma perform_io_cache:
  "o_cache (exec cl (perform_io env cl c)) =
     (if cachePlaylists cl
      then cache_all (kept_of (o_trace (exec cl (perform_io env cl c)))) (cache_playlists cl)
      else cache_playlists cl)"
  by (simp only: perform_io_agrees perform_cache)

lemma js_map_array: "js_map f v = Inr ps \<Longrightarrow> \<exists>xs. v = JArr xs \<and> map_throw f xs = Inr ps"
  by (cases v) simp_all

lemma perform_io_built:
  assumes "p \<in> set (built_of (o_trace (exec cl (perform_io env cl c))))"
  shows "\<exists>x. Playlist env x = Inr p"
proof (cases c)
  case (Get ident force market)
  with assms show ?thesis
    by (auto simp: perform_io_def get_io_exec and_then_def split: option.splits sum.splits)
next
  case (Search q options)
  with assms show ?thesis
    by (auto simp: perform_io_def search_io_exec
        dest!: js_map_array built_before_all dest: built_before_sound
        split: sum.splits prod.splits jsval.splits)
qed

lemma get_io_cases:
  "cached cl ident (force_of cl force) = Some p \<Longrightarrow>
   exec cl (get_io env cl ident force market) =
     \<lparr>o_result = Inr (JObj p), o_cache = cache_playlists cl, o_trace = []\<rparr>"
  "cached cl ident (force_of cl force) = None \<Longrightarrow>
   fetch env (playlist_request ident (market_of market)) = Inr res \<Longrightarrow>
   Playlist env res = Inr p \<Longrightarrow>
   exec cl (get_io env cl ident force market) =
     \<lparr>o_result = Inr (JObj p),
      o_cache = (if cachePlaylists cl then (cache_playlists cl)(get_field p ''id'' \<mapsto> p)
                 else cache_playlists cl),
      o_trace = [Request (playlist_request ident (market_of market)), Built p]\<rparr>"
  "cached cl ident (force_of cl force) = None \<Longrightarrow>
   fetch env (playlist_request ident (market_of market)) = Inr res \<Longrightarrow>
   Playlist env res = Inl e \<Longrightarrow>
   exec cl (get_io env cl ident force market) =
     \<lparr>o_result = handleError env e, o_cache = cache_playlists cl,
      o_trace = [Request (playlist_request ident (market_of market)), Caught e]\<rparr>"
  "cached cl ident (force_of cl force) = None \<Longrightarrow>
   fetch env (playlist_request ident (market_of market)) = Inl e \<Longrightarrow>
   exec cl (get_io env cl ident force market) =
     \<lparr>o_result = handleError env e, o_cache = cache_playlists cl,
      o_trace = [Request (playlist_request ident (market_of market)), Caught e]\<rparr>"
  by (simp_all add: get_io_exec and_then_def)

lemma search_io_cases:
  "fetch env (search_request q options) = Inr res \<Longrightarrow>
   getprop res ''playlists'' = Inr data \<Longrightarrow> getprop data ''items'' = Inr (JArr xs) \<Longrightarrow>
   map_throw (Playlist env) xs = Inr ps \<Longrightarrow>
   exec cl (search_io env cl q options) =
     \<lparr>o_result = Inr (paging data (map JObj ps)),
      o_cache = (if cachePlaylists cl then cache_all ps (cache_playlists cl)
                 else cache_playlists cl),
      o_trace = Request (search_request q options) # map Built ps\<rparr>"
  "fetch env (search_request q options) = Inr res \<Longrightarrow>
   getprop res ''playlists'' = Inr data \<Longrightarrow> getprop data ''items'' = Inr (JArr xs) \<Longrightarrow>
   map_throw (Playlist env) xs = Inl e \<Longrightarrow>
   exec cl (search_io env cl q options) =
     \<lparr>o_result = or_default (handleError env e) empty_paging,
      o_cache = cache_playlists cl,
      o_trace = Request (search_request q options) #
                map Built (built_before (Playlist env) xs) @ [Caught e]\<rparr>"
  by (simp_all add: search_io_exec and_then_def)

text \<open>
  Claim C2, as amended. The claim says that a value held under key \<open>K\<close> is the playlist
  most recently constructed from an upstream response with id \<open>K\<close>. That fails: a search
  constructs its playlists one by one, and when the constructor refuses a later item the
  whole response is dropped in the \<open>catch\<close> block before any cache write, so a playlist
  that was constructed never reaches the cache (the counterexample below). What holds,
  with \<open>h_built\<close> the playlists the constructor returned and \<open>h_kept\<close> those of them built
  by a call whose \<open>try\<close> block ran to its end: along every sequence of \<open>get\<close> and \<open>search\<close>
  calls, with caching on, a cache that holds the latest kept playlist of each id still
  does so afterwards; with caching off the cache is never written; every entry sits under
  its own id; the kept playlists are among the built ones. For one call: the cache
  afterwards is the cache before with the kept playlists of the call written under their
  ids, first to last, when caching is on; every playlist in the trace was returned by the
  constructor; a \<open>get\<close> answered from the cache builds nothing, a \<open>get\<close> that fetches
  builds, caches and returns the one playlist of the response, or ends in the handler
  with the cache untouched; a \<open>search\<close> whose items are all accepted builds, caches
  and returns them in order, and one with a refused item builds the items before it and
  caches none.
\<close>

theorem cache_holds_latest_kept_playlist:
  "(cachePlaylists (h_client h) \<and> cache_playlists (h_client h) = latest (h_kept h) \<longrightarrow>
      cache_playlists (h_client (run_io env steps h)) = latest (h_kept (run_io env steps h)))
   \<and> (\<not> cachePlaylists (h_client h) \<longrightarrow>
      cache_playlists (h_client (run_io env steps h)) = cache_playlists (h_client h))
   \<and> ((\<forall>k p. cache_playlists (h_client h) k = Some p \<longrightarrow> get_field p ''id'' = k) \<longrightarrow>
      (\<forall>k p. cache_playlists (h_client (run_io env steps h)) k = Some p \<longrightarrow>
         get_field p ''id'' = k))
   \<and> (set (h_kept h) \<subseteq> set (h_built h) \<longrightarrow>
      set (h_kept (run_io env steps h)) \<subseteq> set (h_built (run_io env steps h)))
   \<and> o_cache (exec cl (perform_io env cl c)) =
       (if cachePlaylists cl
        then cache_all (kept_of (o_trace (exec cl (perform_io env cl c)))) (cache_playlists cl)
        else cache_playlists cl)
   \<and> (\<forall>b. b \<in> set (built_of (o_trace (exec cl (perform_io env cl c)))) \<longrightarrow>
         (\<exists>x. Playlist env x = Inr b))
   \<and> (cached cl ident (force_of cl force) = Some p \<longrightarrow>
      exec cl (get_io env cl ident force market) =
        \<lparr>o_result = Inr (JObj p), o_cache = cache_playlists cl, o_trace = []\<rparr>)
   \<and> (cached cl ident (force_of cl force) = None \<and>
      fetch env (playlist_request ident (market_of market)) = Inr res \<and>
      Playlist env res = Inr p \<longrightarrow>
      exec cl (get_io env cl ident force market) =
        \<lparr>o_result = Inr (JObj p),
         o_cache = (if cachePlaylists cl then (cache_playlists cl)(get_field p ''id'' \<mapsto> p)
                    else cache_playlists cl),
         o_trace = [Request (playlist_request ident (market_of market)), Built p]\<rparr>)
   \<and> (cached cl ident (force_of cl force) = None \<and>
      (fetch env (playlist_request ident (market_of market)) = Inl e \<or>
       fetch env (playlist_request ident (market_of market)) = Inr res \<and>
       Playlist env res = Inl e) \<longrightarrow>
      exec cl (get_io env cl ident force market) =
        \<lparr>o_result = handleError env e, o_cache = cache_playlists cl,
         o_trace = [Request (playlist_request ident (market_of market)), Caught e]\<rparr>)
   \<and> (fetch env (search_request q options) = Inr res \<and>
      getprop res ''playlists'' = Inr data \<and> getprop data ''items'' = Inr (JArr xs) \<and>
      map_throw (Playlist env) xs = Inr ps \<longrightarrow>
      exec cl (search_io env cl q options) =
        \<lparr>o_result = Inr (paging data (map JObj ps)),
         o_cache = (if cachePlaylists cl then cache_all ps (cache_playlists cl)
                    else cache_playlists cl),
         o_trace = Request (search_request q options) # map Built ps\<rparr>)
   \<and> (fetch env (search_request q options) = Inr res \<and>
      getprop res ''playlists'' = Inr data \<and> getprop data ''items'' = Inr (JArr xs) \<and>
      map_throw (Playlist env) xs = Inl e \<longrightarrow>
      exec cl (search_io env cl q options) =
        \<lparr>o_result = or_default (handleError env e) empty_paging,
         o_cache = cache_playlists cl,
         o_trace = Request (search_request q options) #
                   map Built (built_before (Playlist env) xs) @ [Caught e]\<rparr>)"
proof (intro conjI impI allI)
  show "cache_playlists (h_client (run_io env steps h)) = latest (h_kept (run_io env steps h))"
    if "cachePlaylists (h_client h) \<and> cache_playlists (h_client h) = latest (h_kept h)"
    using that by (simp add: run_io_latest)
  show "cache_playlists (h_client (run_io env steps h)) = cache_playlists (h_client h)"
    if "\<not> cachePlaylists (h_client h)"
    using that by (rule run_io_no_write)
  show "get_field p' ''id'' = k"
    if "\<forall>k p. cache_playlists (h_client h) k = Some p \<longrightarrow> get_field p ''id'' = k"
      and "cache_playlists (h_client (run_io env steps h)) k = Some p'" for k p'
    using that run_io_own_id [of h env steps k p'] by blast
  show "set (h_kept (run_io env steps h)) \<subseteq> set (h_built (run_io env steps h))"
    if "set (h_kept h) \<subseteq> set (h_built h)"
    using that by (rule run_io_kept_built)
  show "o_cache (exec cl (perform_io env cl c)) =
       (if cachePlaylists cl
        then cache_all (kept_of (o_trace (exec cl (perform_io env cl c)))) (cache_playlists cl)
        else cache_playlists cl)"
    by (rule perform_io_cache)
  show "\<exists>x. Playlist env x = Inr b"
    if "b \<in> set (built_of (o_trace (exec cl (perform_io env cl c))))" for b
    using that by (rule perform_io_built)
  show "exec cl (get_io env cl ident force market) =
        \<lparr>o_result = Inr (JObj p), o_cache = cache_playlists cl, o_trace = []\<rparr>"
    if "cached cl ident (force_of cl force) = Some p"
    using that by (rule get_io_cases)
  show "exec cl (get_io env cl ident force market) =
        \<lparr>o_result = Inr (JObj p),
         o_cache = (if cachePlaylists cl then (cache_playlists cl)(get_field p ''id'' \<mapsto> p)
                    else cache_playlists cl),
         o_trace = [Request (playlist_request ident (market_of market)), Built p]\<rparr>"
    if "cached cl ident (force_of cl force) = None \<and>
      fetch env (playlist_request ident (market_of market)) = Inr res \<and>
      Playlist env res = Inr p"
    using that by (simp add: get_io_cases)
  show "exec cl (get_io env cl ident force market) =
        \<lparr>o_result = handleError env e, o_cache = cache_playlists cl,
         o_trace = [Request (playlist_request ident (market_of market)), Caught e]\<rparr>"
    if "cached cl ident (force_of cl force) = None \<and>
      (fetch env (playlist_request ident (market_of market)) = Inl e \<or>
       fetch env (playlist_request ident (market_of market)) = Inr res \<and>
       Playlist env res = Inl e)"
    using that by (auto simp: get_io_cases)
  show "exec cl (search_io env cl q options) =
        \<lparr>o_result = Inr (paging data (map JObj ps)),
         o_cache = (if cachePlaylists cl then cache_all ps (cache_playlists cl)
                    else cache_playlists cl),
         o_trace = Request (search_request q options) # map Built ps\<rparr>"
    if "fetch env (search_request q options) = Inr res \<and>
      getprop res ''playlists'' = Inr data \<and> getprop data ''items'' = Inr (JArr xs) \<and>
      map_throw (Playlist env) xs = Inr ps"
    using that by (simp add: search_io_cases)
  show "exec cl (search_io env cl q options) =
        \<lparr>o_result = or_default (handleError env e) empty_paging,
         o_cache = cache_playlists cl,
         o_trace = Request (search_request q options) #
                   map Built (built_before (Playlist env) xs) @ [Caught e]\<rparr>"
    if "fetch env (search_request q options) = Inr res \<and>
      getprop res ''playlists'' = Inr data \<and> getprop data ''items'' = Inr (JArr xs) \<and>
      map_throw (Playlist env) xs = Inl e"
    using that by (simp add: search_io_cases)
qed

text \<open>
  On an empty cache, \<open>get\<close> fetches the playlist \<open>p1\<close> under its old name; then a search
  finds \<open>p1\<close> under its new name, followed by \<open>null\<close>. The new \<open>p1\<close> is constructed, the
  constructor throws on \<open>null\<close>, and the cache keeps the old \<open>p1\<close>.
\<close>

theorem cache_holds_latest_playlist_counterexample:
  "cache_playlists (h_client new_history) = Map.empty \<and> h_built new_history = []
   \<and> h_built (run_io demo_env stale_steps new_history) = [old_playlist, new_playlist]
   \<and> get_field new_playlist ''id'' = JStr ''p1''
   \<and> latest (h_built (run_io demo_env stale_steps new_history)) (JStr ''p1'') =
       Some new_playlist
   \<and> cache_playlists (h_client (run_io demo_env stale_steps new_history)) (JStr ''p1'') =
       Some old_playlist
   \<and> new_playlist \<noteq> old_playlist"
  by (simp add: stale_run)
     (simp add: new_history_def demo_client_def latest_def old_playlist_def new_playlist_def
        get_field_def)

text \<open>The same run satisfies the amended statement; its first call is a fetching \<open>get\<close>.\<close>

theorem cache_holds_latest_kept_playlist_witness:
  "cachePlaylists (h_client new_history)
   \<and> cache_playlists (h_client new_history) = latest (h_kept new_history)
   \<and> cache_playlists (h_client (run_io demo_env stale_steps new_history)) =
       latest (h_kept (run_io demo_env stale_steps new_history))
   \<and> h_kept (run_io demo_env stale_steps new_history) = [old_playlist]
   \<and> cached demo_client ''p1'' (force_of demo_client None) = None
   \<and> fetch (demo_env\<lparr>fetch := old_fetch\<rparr>) (playlist_request ''p1'' (market_of None)) =
       Inr (JObj old_playlist)
   \<and> Playlist (demo_env\<lparr>fetch := old_fetch\<rparr>) (JObj old_playlist) = Inr old_playlist
   \<and> exec demo_client (get_io (demo_env\<lparr>fetch := old_fetch\<rparr>) demo_client ''p1'' None None) =
       \<lparr>o_result = Inr (JObj old_playlist),
        o_cache = [JStr ''p1'' \<mapsto> old_playlist],
        o_trace = [Request (playlist_request ''p1'' ''US''), Built old_playlist]\<rparr>"
proof -
  note t = cache_holds_latest_kept_playlist
    [where h = new_history and env = "demo_env\<lparr>fetch := old_fetch\<rparr>" and steps = stale_steps
       and cl = demo_client and ident = "''p1''" and force = None and market = None
       and res = "JObj old_playlist" and p = old_playlist]
  have e: "run_io (demo_env\<lparr>fetch := old_fetch\<rparr>) stale_steps new_history =
           run_io demo_env stale_steps new_history"
    by (simp add: stale_steps_def Let_def)
  have a: "cachePlaylists (h_client new_history)"
    by (simp add: new_history_def demo_client_def)
  have b: "cache_playlists (h_client new_history) = latest (h_kept new_history)"
    by (rule ext) (simp add: new_history_def demo_client_def latest_def)
  have c: "cached demo_client ''p1'' (force_of demo_client None) = None"
    by (simp add: cached_def force_of_def demo_client_def)
  have d: "fetch (demo_env\<lparr>fetch := old_fetch\<rparr>) (playlist_request ''p1'' (market_of None)) =
       Inr (JObj old_playlist)"
    by (simp add: old_fetch_def playlist_request_def get_request_def market_of_def)
  have f: "Playlist (demo_env\<lparr>fetch := old_fetch\<rparr>) (JObj old_playlist) = Inr old_playlist"
    by (simp add: demo_env_def mirror_def)
  have g: "get_field old_playlist ''id'' = JStr ''p1''"
    by (simp add: old_playlist_def get_field_def)
  from t a b have 1: "cache_playlists (h_client (run_io demo_env stale_steps new_history)) =
       latest (h_kept (run_io demo_env stale_steps new_history))"
    unfolding e by simp
  from t c d f have 2:
    "exec demo_client (get_io (demo_env\<lparr>fetch := old_fetch\<rparr>) demo_client ''p1'' None None) =
       \<lparr>o_result = Inr (JObj old_playlist),
        o_cache = [JStr ''p1'' \<mapsto> old_playlist],
        o_trace = [Request (playlist_request ''p1'' ''US''), Built old_playlist]\<rparr>"
    by (simp add: g) (simp add: demo_client_def market_of_def)
  have 3: "h_kept (run_io demo_env stale_steps new_history) = [old_playlist]"
    by (simp add: stale_run)
  from a b c d f 1 2 3 show ?thesis by simp
qed

section \<open>The cache never shrinks\<close>

lemma fetched_cache: "cache (fetched cl req r) = cache_playlists cl"
  by (simp add: fetched_def)

lemma card_cache_all:
  assumes "distinct (map (\<lambda>p. get_field p ''id'') ps)"
  shows "card (dom (cache_all ps Map.empty)) = length ps"
proof -
  have "dom (cache_all ps Map.empty) = set (map (\<lambda>p. get_field p ''id'') ps)"
    by (simp add: dom_cache_all)
  then show ?thesis
    using distinct_card [OF assms] by simp
qed

lemma login_cache: "login lc t now = Inr lc' \<Longrightarrow> cache_tracks lc' = cache_tracks lc"
  by (auto simp: login_def split: if_splits)

text \<open>
  Claim C7. No operation removes an entry of a cache map. The key set of
  \<open>cache.playlists\<close> after \<open>search\<close> or \<open>get\<close> contains the key set before; the
  other methods of the playlist manager leave the map as it is; so along every sequence
  of calls the key set only grows. \<open>login\<close> of the legacy client replaces the token and
  the managers and keeps \<open>cache.tracks\<close>. No bound is enforced: with caching on, a
  search adds a key for every playlist of the response, and \<open>n\<close> playlists with
  distinct ids make \<open>n\<close> entries.
\<close>

theorem cache_never_shrinks:
  "dom (cache_playlists cl) \<subseteq> dom (cache (search env cl q options)) \<and>
   dom (cache_playlists cl) \<subseteq> dom (cache (get env cl ident force market)) \<and>
   cache (getTracks env cl ident options) = cache_playlists cl \<and>
   cache (getImages env cl ident) = cache_playlists cl \<and>
   cache (userFollows env cl ident ids) = cache_playlists cl \<and>
   cache (addItems env cl ident uris options) = cache_playlists cl \<and>
   cache (reorderItems env cl ident uris options) = cache_playlists cl \<and>
   cache (removeItems env cl ident uris snapshotID) = cache_playlists cl \<and>
   cache (uploadImage env cl ident img) = cache_playlists cl \<and>
   (run env steps (cl, log) = (cl', log') \<longrightarrow>
      dom (cache_playlists cl) \<subseteq> dom (cache_playlists cl')) \<and>
   (login lc t now = Inr lc' \<longrightarrow> cache_tracks lc' = cache_tracks lc) \<and>
   (cachePlaylists cl \<longrightarrow>
      dom (cache (search env cl q options)) =
        dom (cache_playlists cl) \<union>
        (\<lambda>p. get_field p ''id'') ` set (fresh (search env cl q options))) \<and>
   (distinct (map (\<lambda>p. get_field p ''id'') ps) \<longrightarrow>
      card (dom (cache_all ps Map.empty)) = length ps)"
proof -
  have s: "dom (cache_playlists cl) \<subseteq> dom (cache (search env cl q options))"
    by (simp add: search_cache dom_cache_all)
  have g: "dom (cache_playlists cl) \<subseteq> dom (cache (get env cl ident force market))"
    by (simp add: get_cache dom_cache_all)
  have o: "cache (getTracks env cl ident options) = cache_playlists cl"
    "cache (getImages env cl ident) = cache_playlists cl"
    "cache (userFollows env cl ident ids) = cache_playlists cl"
    "cache (addItems env cl ident uris options) = cache_playlists cl"
    "cache (reorderItems env cl ident uris options) = cache_playlists cl"
    "cache (removeItems env cl ident uris snapshotID) = cache_playlists cl"
    "cache (uploadImage env cl ident img) = cache_playlists cl"
    by (simp_all add: getTracks_def getImages_def userFollows_def addItems_def
        reorderItems_def removeItems_def uploadImage_def Let_def fetched_cache)
  have d: "cachePlaylists cl \<longrightarrow>
      dom (cache (search env cl q options)) =
        dom (cache_playlists cl) \<union>
        (\<lambda>p. get_field p ''id'') ` set (fresh (search env cl q options))"
    by (simp add: search_cache dom_cache_all)
  from s g o d show ?thesis
    by (intro conjI impI) (simp_all add: run_dom login_cache card_cache_all)
qed

theorem cache_never_shrinks_witness:
  "run demo_env demo_steps (demo_client, []) =
     (fst (run demo_env demo_steps (demo_client, [])),
      snd (run demo_env demo_steps (demo_client, []))) \<and>
   dom (cache_playlists demo_client) \<subseteq>
     dom (cache_playlists (fst (run demo_env demo_steps (demo_client, [])))) \<and>
   dom (cache_playlists (fst (run demo_env demo_steps (demo_client, [])))) =
     {JStr ''p1'', JStr ''p2''} \<and>
   login demo_legacy_client ''token-2'' 2000 = Inr demo_relogged \<and>
   cache_tracks demo_relogged = cache_tracks demo_legacy_client \<and>
   dom (cache_tracks demo_relogged) = {JStr ''t1''} \<and>
   cachePlaylists demo_client \<and>
   fresh (search demo_env demo_client ''jazz'' None) = demo_playlists \<and>
   dom (cache (search demo_env demo_client ''jazz'' None)) = {JStr ''p1'', JStr ''p2''} \<and>
   distinct (map (\<lambda>p. get_field p ''id'') demo_playlists) \<and>
   card (dom (cache_all demo_playlists Map.empty)) = 2"
proof -
  have r: "run demo_env demo_steps (demo_client, []) =
     (fst (run demo_env demo_steps (demo_client, [])),
      snd (run demo_env demo_steps (demo_client, [])))"
    by simp
  have l: "login demo_legacy_client ''token-2'' 2000 = Inr demo_relogged"
    by (simp add: login_def demo_relogged_def)
  have c: "cachePlaylists demo_client"
    by (simp add: demo_client_def)
  have d: "distinct (map (\<lambda>p. get_field p ''id'') demo_playlists)"
    by (simp add: demo_playlists_def get_field_def)
  have i: "(\<lambda>p. get_field p ''id'') ` set demo_playlists = {JStr ''p1'', JStr ''p2''}"
    by (simp add: demo_playlists_def get_field_def)
  have e: "dom (cache_playlists demo_client) = {}"
    by (simp add: demo_client_def)
  have t: "dom (cache_tracks demo_relogged) = {JStr ''t1''}"
    by (simp add: demo_relogged_def demo_legacy_client_def)
  have n: "length demo_playlists = 2"
    by (simp add: demo_playlists_def)
  have k: "dom (cache_playlists (fst (run demo_env demo_steps (demo_client, [])))) =
     {JStr ''p1'', JStr ''p2''}"
    using i by (simp add: demo_run dom_cache_all insert_absorb)
  note w = cache_never_shrinks [where env = demo_env and cl = demo_client and q = "''jazz''"
      and options = None and steps = demo_steps and log = "[]"
      and cl' = "fst (run demo_env demo_steps (demo_client, []))"
      and log' = "snd (run demo_env demo_steps (demo_client, []))"
      and lc = demo_legacy_client and t = "''token-2''" and now = 2000
      and lc' = demo_relogged and ps = demo_playlists]
  have a: "dom (cache_playlists demo_client) \<subseteq>
     dom (cache_playlists (fst (run demo_env demo_steps (demo_client, []))))"
    using w r by blast
  have b: "cache_tracks demo_relogged = cache_tracks demo_legacy_client"
    using w l by blast
  have f: "fresh (search demo_env demo_client ''jazz'' None) = demo_playlists"
    by (simp add: demo_search)
  have g: "dom (cache (search demo_env demo_client ''jazz'' None)) = {JStr ''p1'', JStr ''p2''}"
    using w c by (simp add: f i e)
  have h: "card (dom (cache_all demo_playlists Map.empty)) = 2"
    using w d n by simp
  from r a k l b t c f g d h show ?thesis by (intro conjI)
qed

section \<open>How many requests a call sends\<close>

























section \<open>The errors of the legacy artist methods\<close>

























section \<open>Entities after their construction\<close>

lemma decorate_Inr:
  "decorate env b = Inr x \<Longrightarrow>
   \<exists>data. getCodeImage env (get_field b ''uri'') = Inr data \<and>
                     x = set_field ''dominantColor'' (field_of data ''dominantColor'')
                           (set_field ''codeImage'' (field_of data ''image'') b)"
  by (auto simp: decorate_def and_then_def getprop_def split: sum.splits if_splits)

lemma advance_decorated:
  "advance env built = (Inr after, evs) \<Longrightarrow>
   list_all2 (\<lambda>b x. \<exists>data. getCodeImage env (get_field b ''uri'') = Inr data \<and>
                     x = set_field ''dominantColor'' (field_of data ''dominantColor'')
                           (set_field ''codeImage'' (field_of data ''image'') b))
     built after"
proof (induction built arbitrary: after evs)
  case Nil
  then show ?case by simp
next
  case (Cons b built)
  then show ?case
    by (auto split: sum.splits prod.splits dest: decorate_Inr)
qed

lemma js_map_Inr: "js_map f v = Inr ys \<Longrightarrow> \<exists>xs. v = JArr xs \<and> map_throw f xs = Inr ys"
  by (cases v) simp_all

lemma listing_entities:
  assumes "listing env ctor adv arr = (Inr v, evs)"
  shows "\<exists>xs built after. arr = Inr (JArr xs) \<and> map_throw ctor xs = Inr built \<and>
           v = JArr (map JObj after) \<and>
           list_all2 (\<lambda>b x. if truthy adv
                             then \<exists>data. getCodeImage env (get_field b ''uri'') = Inr data \<and>
                     x = set_field ''dominantColor'' (field_of data ''dominantColor'')
                           (set_field ''codeImage'' (field_of data ''image'') b)
                             else x = b) built after"
proof -
  from assms obtain val built where a: "arr = Inr val" and j: "js_map ctor val = Inr built"
    by (auto simp: listing_def and_then_def split: sum.splits)
  from j obtain xs where x: "val = JArr xs" "map_throw ctor xs = Inr built"
    by (auto dest: js_map_Inr)
  show ?thesis
  proof (cases "truthy adv")
    case True
    with assms a j obtain after where v: "v = JArr (map JObj after)"
      and ad: "advance env built = (Inr after, evs)"
      by (auto simp: listing_def and_then_def split: sum.splits prod.splits)
    from advance_decorated [OF ad] True a x v show ?thesis by auto
  next
    case False
    with assms a j have "v = JArr (map JObj built)"
      by (auto simp: listing_def and_then_def)
    with False a x show ?thesis
      by (auto simp: list_all2_same intro!: exI [of _ built])
  qed
qed

lemma settle_Inr: "settle missing msg body = Inr v \<Longrightarrow> body = Inr v"
  by (auto simp: settle_def split: if_splits sum.splits)


lemma map_throw_built:
  "map_throw f xs = Inr ys \<Longrightarrow> y \<in> set ys \<Longrightarrow> \<exists>x. f x = Inr y"
  by (induction xs arbitrary: ys) (auto split: sum.splits)

lemma cache_all_entry:
  "cache_all ps c k = Some p \<Longrightarrow> c k = Some p \<or> p \<in> set ps"
  by (induction ps arbitrary: k p rule: rev_induct)
     (auto simp: cache_all_snoc cache_all_Nil split: if_splits)

lemma get_fresh_built:
  "p \<in> set (fresh (get env cl ident force market)) \<Longrightarrow> \<exists>x. Playlist env x = Inr p"
  by (auto simp: get_def get_fetch_def split: option.splits sum.splits)

lemma search_fresh_built:
  "p \<in> set (fresh (search env cl q options)) \<Longrightarrow> \<exists>x. Playlist env x = Inr p"
  by (auto simp: search_def search_try_def Let_def split: sum.splits
      dest: js_map_Inr map_throw_built)

lemma perform_fresh_built:
  "p \<in> set (fresh (perform env cl c)) \<Longrightarrow> \<exists>x. Playlist env x = Inr p"
  by (cases c) (auto simp: perform_def dest: get_fresh_built search_fresh_built)

lemma perform_entry:
  "cache (perform env cl c) k = Some p \<Longrightarrow>
   cache_playlists cl k = Some p \<or> p \<in> set (fresh (perform env cl c))"
  by (auto simp: perform_cache split: if_splits dest: cache_all_entry)

lemma other_fields_kept:
  "k \<notin> {''codeImage'', ''dominantColor''} \<Longrightarrow>
   get_field (set_field ''dominantColor'' col (set_field ''codeImage'' img b)) k = get_field b k"
  by (auto simp: get_field_set_field)

lemma list_method_entities:
  assumes "m \<in> {artist_search, getAlbums, topTracks, relatedArtists}"
    and "settled (m env a options) = Inr v"
  shows "\<exists>ctor xs built after.
           ctor \<in> {ArtistStructure env, SimplifiedAlbum env, Track env} \<and>
           map_throw ctor xs = Inr built \<and> v = JArr (map JObj after) \<and>
           list_all2
             (\<lambda>b x. if truthy (case options of None \<Rightarrow> JUndefined | Some r \<Rightarrow> opt_advanced r)
                     then \<exists>data. getCodeImage env (get_field b ''uri'') = Inr data \<and>
                     x = set_field ''dominantColor'' (field_of data ''dominantColor'')
                           (set_field ''codeImage'' (field_of data ''image'') b)
                     else x = b) built after"
proof -
  let ?adv = "case options of None \<Rightarrow> JUndefined | Some r \<Rightarrow> opt_advanced r"
  have "\<exists>ctor arr evs. ctor \<in> {ArtistStructure env, SimplifiedAlbum env, Track env} \<and>
          listing env ctor ?adv arr = (Inr v, evs)"
  proof -
    consider "m = artist_search" | "m = getAlbums" | "m = topTracks" | "m = relatedArtists"
      using assms(1) by auto
    then show ?thesis
    proof cases
      case 1
      with assms(2) show ?thesis
        by (cases options)
           (auto simp: artist_search_def Let_def no_options_def
              split: sum.splits prod.splits dest!: settle_Inr)
    next
      case 2
      with assms(2) show ?thesis
        by (cases options)
           (auto simp: getAlbums_def Let_def no_options_def split: prod.splits dest!: settle_Inr)
    next
      case 3
      with assms(2) show ?thesis
        by (cases options)
           (auto simp: topTracks_def Let_def no_options_def split: prod.splits dest!: settle_Inr)
    next
      case 4
      with assms(2) show ?thesis
        by (cases options)
           (auto simp: relatedArtists_def Let_def no_options_def split: prod.splits
              dest!: settle_Inr)
    qed
  qed
  then obtain ctor arr evs
    where c: "ctor \<in> {ArtistStructure env, SimplifiedAlbum env, Track env}"
      and l: "listing env ctor ?adv arr = (Inr v, evs)"
    by blast
  from listing_entities [OF l] c show ?thesis by blast
qed

lemma artist_get_entity:
  assumes "settled (artist_get env a options) = Inr v"
  shows "\<exists>x b. ArtistStructure env x = Inr b \<and>
           (if truthy (case options of None \<Rightarrow> JUndefined | Some r \<Rightarrow> opt_advanced r)
            then \<exists>data. getCodeImage env (get_field b ''uri'') = Inr data \<and>
                     v = JObj (set_field ''dominantColor'' (field_of data ''dominantColor'')
                           (set_field ''codeImage'' (field_of data ''image'') b))
            else v = JObj b)"
proof -
  let ?req = "\<lparr>link = ''v1/artists/'' @ a, link_params = None\<rparr>"
  let ?adv = "case options of None \<Rightarrow> JUndefined | Some r \<Rightarrow> opt_advanced r"
  have adv: "opt_advanced (case options of None \<Rightarrow> no_options | Some r \<Rightarrow> r) = ?adv"
    by (cases options) (simp_all add: no_options_def)
  from assms obtain x b where x: "legacy_fetch env ?req = Inr x"
    and b: "ArtistStructure env x = Inr b"
    by (auto simp: artist_get_def Let_def and_then_def settle_def
        split: sum.splits if_splits)
  show ?thesis
  proof (cases "truthy ?adv")
    case True
    with assms x b adv obtain d where "decorate env b = Inr d" "v = JObj d"
      by (auto simp: artist_get_def Let_def and_then_def split: sum.splits dest!: settle_Inr)
    with True b decorate_Inr [of env b d] show ?thesis by auto
  next
    case False
    with assms x b adv have "v = JObj b"
      by (auto simp: artist_get_def Let_def and_then_def dest!: settle_Inr)
    with False b show ?thesis by auto
  qed
qed


text \<open>
  Claim C6, as amended. The claim says that no method changes an entity once it is
  built. That fails for the legacy artist methods called with \<open>options.advanced\<close>: they
  assign \<open>codeImage\<close> and \<open>dominantColor\<close> to each entity after its construction (the
  counterexample below). What holds: a legacy method that resolves returns entities each
  built by one constructor call from one payload, unchanged when \<open>advanced\<close> is falsy;
  otherwise each entity \<open>b\<close> is returned after the two assignments of the \<open>image\<close> and
  \<open>dominantColor\<close> fields of what \<open>getCodeImage(b.uri)\<close> resolved with, and these
  leave every other property as built. In the playlist manager, every playlist handed to the cache was built by the
  constructor from a payload, and after a call an entry of the cache is either the entry
  that was there before or such a newly built playlist.
\<close>

theorem entities_change_only_by_advanced:
  "(m \<in> {artist_search, getAlbums, topTracks, relatedArtists} \<and>
    settled (m lenv a options) = Inr v \<longrightarrow>
      (\<exists>ctor xs built after.
         ctor \<in> {ArtistStructure lenv, SimplifiedAlbum lenv, Track lenv} \<and>
         map_throw ctor xs = Inr built \<and> v = JArr (map JObj after) \<and>
         list_all2
           (\<lambda>b x. if truthy (case options of None \<Rightarrow> JUndefined | Some r \<Rightarrow> opt_advanced r)
                   then \<exists>data. getCodeImage lenv (get_field b ''uri'') = Inr data \<and>
                     x = set_field ''dominantColor'' (field_of data ''dominantColor'')
                           (set_field ''codeImage'' (field_of data ''image'') b)
                   else x = b) built after)) \<and>
   (settled (artist_get lenv a options) = Inr w \<longrightarrow>
      (\<exists>x b. ArtistStructure lenv x = Inr b \<and>
         (if truthy (case options of None \<Rightarrow> JUndefined | Some r \<Rightarrow> opt_advanced r)
          then \<exists>data. getCodeImage lenv (get_field b ''uri'') = Inr data \<and>
                     w = JObj (set_field ''dominantColor'' (field_of data ''dominantColor'')
                           (set_field ''codeImage'' (field_of data ''image'') b))
          else w = JObj b))) \<and>
   (k \<notin> {''codeImage'', ''dominantColor''} \<longrightarrow>
      get_field (set_field ''dominantColor'' col (set_field ''codeImage'' img e)) k =
        get_field e k) \<and>
   (p \<in> set (fresh (perform env cl c)) \<longrightarrow> (\<exists>x. Playlist env x = Inr p)) \<and>
   (cache (perform env cl c) key = Some p' \<longrightarrow>
      cache_playlists cl key = Some p' \<or> p' \<in> set (fresh (perform env cl c)))"
proof (intro conjI impI)
  assume "m \<in> {artist_search, getAlbums, topTracks, relatedArtists} \<and>
    settled (m lenv a options) = Inr v"
  then show "\<exists>ctor xs built after.
         ctor \<in> {ArtistStructure lenv, SimplifiedAlbum lenv, Track lenv} \<and>
         map_throw ctor xs = Inr built \<and> v = JArr (map JObj after) \<and>
         list_all2
           (\<lambda>b x. if truthy (case options of None \<Rightarrow> JUndefined | Some r \<Rightarrow> opt_advanced r)
                   then \<exists>data. getCodeImage lenv (get_field b ''uri'') = Inr data \<and>
                     x = set_field ''dominantColor'' (field_of data ''dominantColor'')
                           (set_field ''codeImage'' (field_of data ''image'') b)
                   else x = b) built after"
    using list_method_entities [of m lenv a options v] by blast
next
  assume "settled (artist_get lenv a options) = Inr w"
  then show "\<exists>x b. ArtistStructure lenv x = Inr b \<and>
         (if truthy (case options of None \<Rightarrow> JUndefined | Some r \<Rightarrow> opt_advanced r)
          then \<exists>data. getCodeImage lenv (get_field b ''uri'') = Inr data \<and>
                     w = JObj (set_field ''dominantColor'' (field_of data ''dominantColor'')
                           (set_field ''codeImage'' (field_of data ''image'') b))
          else w = JObj b)"
    by (rule artist_get_entity)
next
  assume "k \<notin> {''codeImage'', ''dominantColor''}"
  then show "get_field (set_field ''dominantColor'' col (set_field ''codeImage'' img e)) k =
        get_field e k"
    by (rule other_fields_kept)
next
  assume "p \<in> set (fresh (perform env cl c))"
  then show "\<exists>x. Playlist env x = Inr p"
    by (rule perform_fresh_built)
next
  assume "cache (perform env cl c) key = Some p'"
  then show "cache_playlists cl key = Some p' \<or> p' \<in> set (fresh (perform env cl c))"
    by (rule perform_entry)
qed

lemma demo_artist_search:
  "artist_search demo_legacy_env ''muse'' (Some advanced_options) =
     \<lparr>settled = Inr (JArr [JObj decorated_artist]),
      events =
        [Fetch (artist_search_request ''muse'' advanced_options),
         CodeImage (JStr ''spotify:artist:a1'')]\<rparr>"
proof -
  have d: "decorate demo_legacy_env demo_artist = Inr decorated_artist"
    by (simp add: decorate_def and_then_def demo_legacy_env_def demo_code_image_def
        getprop_def nullish_def get_field_def demo_artist_def decorated_artist_def)
  have u: "get_field demo_artist ''uri'' = JStr ''spotify:artist:a1''"
    by (simp add: get_field_def demo_artist_def)
  have a: "advance demo_legacy_env [demo_artist] =
             (Inr [decorated_artist], [CodeImage (JStr ''spotify:artist:a1'')])"
    by (simp add: d u)
  have f: "legacy_fetch demo_legacy_env (artist_search_request ''muse'' advanced_options) =
             Inr (JObj [(''artists'', JObj [(''items'', JArr [JObj demo_artist])])])"
    by (simp add: demo_legacy_env_def artist_search_request_def)
  have c: "ArtistStructure demo_legacy_env (JObj demo_artist) = Inr demo_artist"
    by (simp add: demo_legacy_env_def mirror_def)
  have e: "encodeURIComponent demo_legacy_env ''muse'' = Inr ''muse''"
    by (simp add: demo_legacy_env_def)
  have t: "truthy (opt_advanced advanced_options)"
    by (simp add: advanced_options_def no_options_def)
  have l: "listing demo_legacy_env (ArtistStructure demo_legacy_env)
             (opt_advanced advanced_options)
             (and_then (legacy_fetch demo_legacy_env
                          (artist_search_request ''muse'' advanced_options))
                (\<lambda>res. and_then (getprop res ''artists'') (\<lambda>a. getprop a ''items''))) =
           (Inr (JArr [JObj decorated_artist]), [CodeImage (JStr ''spotify:artist:a1'')])"
    by (simp add: listing_def f and_then_def getprop_def nullish_def get_field_def c t a
        del: advance.simps)
  show ?thesis
    by (simp add: artist_search_def e l Let_def settle_def)
qed

text \<open>
  An artist found by a search with \<open>advanced\<close> set is returned with two properties the
  constructor did not give it.
\<close>

theorem entity_never_mutated_counterexample:
  "ArtistStructure demo_legacy_env (JObj demo_artist) = Inr demo_artist \<and>
   settled (artist_search demo_legacy_env ''muse'' (Some advanced_options)) =
     Inr (JArr [JObj decorated_artist]) \<and>
   decorated_artist \<noteq> demo_artist \<and>
   get_field demo_artist ''codeImage'' = JUndefined \<and>
   get_field decorated_artist ''codeImage'' = JStr ''https://scannables.scdn.co/a1''"
  by (simp add: demo_artist_search)
     (simp add: demo_legacy_env_def mirror_def demo_artist_def decorated_artist_def
        get_field_def)


theorem entities_change_only_by_advanced_witness:
  "artist_search \<in> {artist_search, getAlbums, topTracks, relatedArtists} \<and>
   settled (artist_search demo_legacy_env ''muse'' (Some advanced_options)) =
     Inr (JArr [JObj decorated_artist]) \<and>
   (\<exists>ctor xs built after.
      ctor \<in> {ArtistStructure demo_legacy_env, SimplifiedAlbum demo_legacy_env,
               Track demo_legacy_env} \<and>
      map_throw ctor xs = Inr built \<and> JArr [JObj decorated_artist] = JArr (map JObj after) \<and>
      list_all2
        (\<lambda>b x. \<exists>data. getCodeImage demo_legacy_env (get_field b ''uri'') = Inr data \<and>
                     x = set_field ''dominantColor'' (field_of data ''dominantColor'')
                           (set_field ''codeImage'' (field_of data ''image'') b))
        built after) \<and>
   settled (artist_get demo_legacy_env ''a1'' None) = Inr (JObj demo_artist) \<and>
   (\<exists>x. ArtistStructure demo_legacy_env x = Inr demo_artist) \<and>
   ''id'' \<notin> {''codeImage'', ''dominantColor''} \<and>
   get_field decorated_artist ''id'' = get_field demo_artist ''id'' \<and>
   hd demo_playlists \<in> set (fresh (perform demo_env demo_client (Search ''jazz'' None))) \<and>
   (\<exists>x. Playlist demo_env x = Inr (hd demo_playlists)) \<and>
   cache (perform demo_env demo_client (Search ''jazz'' None)) (JStr ''p1'') =
     Some (hd demo_playlists) \<and>
   cache_playlists demo_client (JStr ''p1'') = None"
proof -
  have m: "artist_search \<in> {artist_search, getAlbums, topTracks, relatedArtists}"
    by simp
  have s: "settled (artist_search demo_legacy_env ''muse'' (Some advanced_options)) =
     Inr (JArr [JObj decorated_artist])"
    by (simp add: demo_artist_search)
  have t: "truthy (case Some advanced_options of None \<Rightarrow> JUndefined | Some r \<Rightarrow> opt_advanced r)"
    by (simp add: advanced_options_def no_options_def)
  have g: "settled (artist_get demo_legacy_env ''a1'' None) = Inr (JObj demo_artist)"
    by (simp add: artist_get_def Let_def and_then_def demo_legacy_env_def mirror_def
        no_options_def settle_def)
  have k: "''id'' \<notin> {''codeImage'', ''dominantColor''}"
    by simp
  have d: "decorated_artist =
     set_field ''dominantColor'' (JStr ''#1db954'')
       (set_field ''codeImage'' (JStr ''https://scannables.scdn.co/a1'') demo_artist)"
    by (simp add: decorated_artist_def demo_artist_def)
  have p: "perform demo_env demo_client (Search ''jazz'' None) =
     \<lparr>result = Inr (paging demo_envelope (map JObj demo_playlists)),
      cache = cache_all demo_playlists Map.empty,
      requests = [search_request ''jazz'' None], fresh = demo_playlists\<rparr>"
    by (simp add: perform_def demo_search)
  have f: "hd demo_playlists \<in> set (fresh (perform demo_env demo_client (Search ''jazz'' None)))"
    by (simp add: p) (simp add: demo_playlists_def)
  have c: "cache (perform demo_env demo_client (Search ''jazz'' None)) (JStr ''p1'') =
     Some (hd demo_playlists)"
    by (simp add: p) (simp add: demo_playlists_def cache_all_def get_field_def)
  have n: "cache_playlists demo_client (JStr ''p1'') = None"
    by (simp add: demo_client_def)
  note w1 = entities_change_only_by_advanced [where m = artist_search
      and lenv = demo_legacy_env and a = "''muse''" and options = "Some advanced_options"
      and v = "JArr [JObj decorated_artist]" and k = "''id''" and e = demo_artist
      and col = "JStr ''#1db954''" and img = "JStr ''https://scannables.scdn.co/a1''"
      and env = demo_env and cl = demo_client and c = "Search ''jazz'' None"
      and p = "hd demo_playlists" and key = "JStr ''p1''" and p' = "hd demo_playlists"]
  note w2 = entities_change_only_by_advanced [where lenv = demo_legacy_env and a = "''a1''"
      and options = None and w = "JObj demo_artist"]
  have e1: "\<exists>ctor xs built after.
      ctor \<in> {ArtistStructure demo_legacy_env, SimplifiedAlbum demo_legacy_env,
               Track demo_legacy_env} \<and>
      map_throw ctor xs = Inr built \<and> JArr [JObj decorated_artist] = JArr (map JObj after) \<and>
      list_all2
        (\<lambda>b x. \<exists>data. getCodeImage demo_legacy_env (get_field b ''uri'') = Inr data \<and>
                     x = set_field ''dominantColor'' (field_of data ''dominantColor'')
                           (set_field ''codeImage'' (field_of data ''image'') b))
        built after"
    using w1 m s t by simp
  have e2: "\<exists>x. ArtistStructure demo_legacy_env x = Inr demo_artist"
    using w2 g by auto
  have e3: "get_field decorated_artist ''id'' = get_field demo_artist ''id''"
    using w1 k d by simp
  have e4: "\<exists>x. Playlist demo_env x = Inr (hd demo_playlists)"
    using w1 f by blast
  from m s e1 g e2 k e3 f e4 c n show ?thesis by (intro conjI)
qed

section \<open>Dispatch of \<open>getByURI\<close>\<close>

lemma split_colon_plain: "CHR '':'' \<notin> set s \<Longrightarrow> split_colon s = [s]"
  by (induction s) (auto split: list.splits)

lemma split_colon_piece:
  "CHR '':'' \<notin> set a \<Longrightarrow> split_colon (a @ CHR '':'' # rest) = a # split_colon rest"
  by (induction a) (auto split: list.splits)

lemma split_uri:
  assumes "CHR '':'' \<notin> set k" "CHR '':'' \<notin> set i"
  shows "split_colon (''spotify:'' @ k @ '':'' @ i) = [''spotify'', k, i]"
proof -
  have "split_colon (''spotify'' @ CHR '':'' # (k @ CHR '':'' # i)) =
          ''spotify'' # split_colon (k @ CHR '':'' # i)"
    by (rule split_colon_piece) simp
  with assms show ?thesis
    by (simp add: split_colon_piece split_colon_plain)
qed

lemma getByURI_kind:
  assumes "CHR '':'' \<notin> set k" "CHR '':'' \<notin> set i"
  shows "getByURI ms (''spotify:'' @ k @ '':'' @ i) =
     (if k = ''album'' then
        \<lparr>uri_settled = resolve_with (albums_get ms (JStr i)),
         uri_calls = [AlbumsGet (JStr i)]\<rparr>
      else if k = ''artist'' then
        \<lparr>uri_settled = resolve_with (artists_get ms (JStr i)),
         uri_calls = [ArtistsGet (JStr i)]\<rparr>
      else if k = ''episode'' then
        \<lparr>uri_settled = resolve_with (episodes_get ms (JStr i)),
         uri_calls = [EpisodesGet (JStr i)]\<rparr>
      else if k \<in> {''show'', ''track'', ''user''} then
        \<lparr>uri_settled = resolve_with (shows_get ms (JStr i)),
         uri_calls = [ShowsGet (JStr i)]\<rparr>
      else
        \<lparr>uri_settled =
           Inl (UnexpectedError (JsError (JStr ''We could not resolve your given uri!''))),
         uri_calls = []\<rparr>)"
  unfolding getByURI_def split_uri [OF assms]
  by (simp add: at_index_def Let_def)

text \<open>
  Claim C8. For an id without a colon, \<open>getByURI\<close> on \<open>spotify:track:<id>\<close> and on
  \<open>spotify:user:<id>\<close> makes exactly one manager call, \<open>shows.get(id)\<close>, and settles
  with its result (a rejection wrapped in \<open>UnexpectedError\<close>); \<open>album\<close>, \<open>artist\<close>,
  \<open>episode\<close> and \<open>show\<close> URIs call the \<open>get\<close> of their own manager; a URI of any
  other kind calls no manager and rejects with an \<open>UnexpectedError\<close>.
\<close>

theorem getByURI_dispatch:
  assumes "CHR '':'' \<notin> set i"
  shows "getByURI ms (''spotify:track:'' @ i) =
           \<lparr>uri_settled = resolve_with (shows_get ms (JStr i)),
            uri_calls = [ShowsGet (JStr i)]\<rparr> \<and>
         getByURI ms (''spotify:user:'' @ i) =
           \<lparr>uri_settled = resolve_with (shows_get ms (JStr i)),
            uri_calls = [ShowsGet (JStr i)]\<rparr> \<and>
         getByURI ms (''spotify:show:'' @ i) =
           \<lparr>uri_settled = resolve_with (shows_get ms (JStr i)),
            uri_calls = [ShowsGet (JStr i)]\<rparr> \<and>
         getByURI ms (''spotify:album:'' @ i) =
           \<lparr>uri_settled = resolve_with (albums_get ms (JStr i)),
            uri_calls = [AlbumsGet (JStr i)]\<rparr> \<and>
         getByURI ms (''spotify:artist:'' @ i) =
           \<lparr>uri_settled = resolve_with (artists_get ms (JStr i)),
            uri_calls = [ArtistsGet (JStr i)]\<rparr> \<and>
         getByURI ms (''spotify:episode:'' @ i) =
           \<lparr>uri_settled = resolve_with (episodes_get ms (JStr i)),
            uri_calls = [EpisodesGet (JStr i)]\<rparr> \<and>
         (CHR '':'' \<notin> set k \<and>
          k \<notin> {''album'', ''artist'', ''episode'', ''show'', ''track'', ''user''} \<longrightarrow>
          getByURI ms (''spotify:'' @ k @ '':'' @ i) =
            \<lparr>uri_settled =
               Inl (UnexpectedError
                      (JsError (JStr ''We could not resolve your given uri!''))),
             uri_calls = []\<rparr>)"
  using getByURI_kind [of "''track''" i ms] getByURI_kind [of "''user''" i ms]
    getByURI_kind [of "''show''" i ms] getByURI_kind [of "''album''" i ms]
    getByURI_kind [of "''artist''" i ms] getByURI_kind [of "''episode''" i ms]
    getByURI_kind [of k i ms] assms
  by simp

theorem getByURI_dispatch_witness:
  "CHR '':'' \<notin> set ''4uLU6hMCjMI75M1A2tKUQC'' \<and>
   getByURI demo_managers ''spotify:track:4uLU6hMCjMI75M1A2tKUQC'' =
     \<lparr>uri_settled = Inl (UnexpectedError (JsError (JStr ''no such show''))),
      uri_calls = [ShowsGet (JStr ''4uLU6hMCjMI75M1A2tKUQC'')]\<rparr> \<and>
   getByURI demo_managers ''spotify:album:4uLU6hMCjMI75M1A2tKUQC'' =
     \<lparr>uri_settled =
        Inr (JObj [(''type'', JStr ''album''), (''id'', JStr ''4uLU6hMCjMI75M1A2tKUQC'')]),
      uri_calls = [AlbumsGet (JStr ''4uLU6hMCjMI75M1A2tKUQC'')]\<rparr> \<and>
   CHR '':'' \<notin> set ''playlist'' \<and>
   ''playlist'' \<notin> {''album'', ''artist'', ''episode'', ''show'', ''track'', ''user''} \<and>
   getByURI demo_managers ''spotify:playlist:4uLU6hMCjMI75M1A2tKUQC'' =
     \<lparr>uri_settled =
        Inl (UnexpectedError (JsError (JStr ''We could not resolve your given uri!''))),
      uri_calls = []\<rparr>"
proof -
  have i: "CHR '':'' \<notin> set ''4uLU6hMCjMI75M1A2tKUQC''" by simp
  show ?thesis
    using getByURI_dispatch [OF i, of demo_managers "''playlist''"] i
    by (simp add: demo_managers_def resolve_with_def)
qed

section \<open>Falsy options of \<open>reorderItems\<close> and \<open>removeItems\<close>\<close>

lemma reorder_opts_keys:
  "map fst (reorder_opts options) =
     [''range_start'', ''insert_before'', ''range_length'', ''snapshot_id'']"
  by (simp add: reorder_opts_def Let_def)

lemma reorder_body:
  "req_body (reorder_request ident uris options) =
     Some (JObj (filter (\<lambda>p. truthy (snd p)) (reorder_opts options) @
                 [(''uris'', JArr (map JStr uris))]))"
proof -
  have d: "distinct (map fst (reorder_opts options))"
    by (simp add: reorder_opts_keys)
  have n: "''uris'' \<notin> fst ` set (reorder_opts options)"
    by (simp add: reorder_opts_keys flip: set_map)
  show ?thesis
    by (simp add: reorder_request_def body_fields [OF d n])
qed

lemma remove_body:
  "req_body (remove_request ident uris snapshotID) =
     Some (JObj (filter (\<lambda>p. truthy (snd p)) (remove_opts snapshotID) @
                 [(''tracks'', JArr (map JStr uris))]))"
proof -
  have d: "distinct (map fst (remove_opts snapshotID))"
    by (simp add: remove_opts_def)
  have n: "''tracks'' \<notin> fst ` set (remove_opts snapshotID)"
    by (simp add: remove_opts_def)
  show ?thesis
    by (simp add: remove_request_def body_fields [OF d n])
qed

lemma prune_reorder_opts:
  "prune (reorder_opts options) = filter (\<lambda>p. truthy (snd p)) (reorder_opts options)"
  by (rule prune_distinct) (simp add: reorder_opts_keys)

lemma reorder_zero_is_absent:
  assumes "k \<in> {''rangeStart'', ''insertBefore'', ''rangeLength''}"
  shows "reorder_request ident uris (Some (set_field k (JNum 0) opts)) =
         reorder_request ident uris (Some (delete_field k opts))"
proof -
  have "prune (reorder_opts (Some (set_field k (JNum 0) opts))) =
        prune (reorder_opts (Some (delete_field k opts)))"
    unfolding prune_reorder_opts using assms
    by (auto simp: reorder_opts_def get_field_set_field get_field_delete_field)
  then show ?thesis by (simp add: reorder_request_def)
qed

lemma remove_empty_is_absent:
  "remove_request ident uris (Some []) = remove_request ident uris None"
  by (simp add: remove_request_def remove_opts_def prune_def get_field_def delete_field_def)

text \<open>
  Claim C9. \<open>reorderItems\<close> and \<open>removeItems\<close> send one request each, and its body
  holds, of the option fields, exactly those whose value is truthy, followed by the
  items: every falsy field has been deleted. So a call with \<open>rangeStart: 0\<close>,
  \<open>insertBefore: 0\<close> or \<open>rangeLength: 0\<close> sends the same request as a call without
  that field, and \<open>removeItems\<close> with the snapshot id \<open>''\<close> the same as without one.
\<close>

theorem falsy_options_deleted:
  "requests (reorderItems env cl ident uris options) = [reorder_request ident uris options] \<and>
   req_body (reorder_request ident uris options) =
     Some (JObj (filter (\<lambda>p. truthy (snd p)) (reorder_opts options) @
                 [(''uris'', JArr (map JStr uris))])) \<and>
   requests (removeItems env cl ident uris snapshotID) =
     [remove_request ident uris snapshotID] \<and>
   req_body (remove_request ident uris snapshotID) =
     Some (JObj (filter (\<lambda>p. truthy (snd p)) (remove_opts snapshotID) @
                 [(''tracks'', JArr (map JStr uris))])) \<and>
   reorder_request ident uris (Some (set_field ''rangeStart'' (JNum 0) opts)) =
     reorder_request ident uris (Some (delete_field ''rangeStart'' opts)) \<and>
   reorder_request ident uris (Some (set_field ''insertBefore'' (JNum 0) opts)) =
     reorder_request ident uris (Some (delete_field ''insertBefore'' opts)) \<and>
   reorder_request ident uris (Some (set_field ''rangeLength'' (JNum 0) opts)) =
     reorder_request ident uris (Some (delete_field ''rangeLength'' opts)) \<and>
   reorderItems env cl ident uris (Some [(''rangeStart'', JNum 0)]) =
     reorderItems env cl ident uris None \<and>
   remove_request ident uris (Some []) = remove_request ident uris None"
proof -
  have a: "requests (reorderItems env cl ident uris options) =
             [reorder_request ident uris options]"
    by (simp add: reorderItems_def fetched_def Let_def)
  have b: "requests (removeItems env cl ident uris snapshotID) =
             [remove_request ident uris snapshotID]"
    by (simp add: removeItems_def fetched_def Let_def)
  have c: "reorder_request ident uris (Some [(''rangeStart'', JNum 0)]) =
           reorder_request ident uris None"
  proof -
    have "reorder_request ident uris (Some (set_field ''rangeStart'' (JNum 0) [])) =
          reorder_request ident uris (Some (delete_field ''rangeStart'' []))"
      by (rule reorder_zero_is_absent) simp
    moreover have "reorder_request ident uris (Some []) = reorder_request ident uris None"
      by (simp add: reorder_request_def reorder_opts_def)
    ultimately show ?thesis by (simp add: delete_field_def)
  qed
  have d: "reorderItems env cl ident uris (Some [(''rangeStart'', JNum 0)]) =
           reorderItems env cl ident uris None"
    by (simp add: reorderItems_def c)
  show ?thesis
    using a b d reorder_body remove_body remove_empty_is_absent
      reorder_zero_is_absent [of "''rangeStart''"]
      reorder_zero_is_absent [of "''insertBefore''"]
      reorder_zero_is_absent [of "''rangeLength''"]
    by simp
qed

section \<open>The two versions of the playlist manager\<close>

lemma get_old_eq: "get_old env cl ident force market = get env cl ident force market"
  by (simp add: get_old_def get_def get_fetch_def cached_def force_of_def market_of_def
      playlist_request_def get_request_def and_then_def Let_def
      split: option.splits sum.splits)

lemma getImages_old_eq: "getImages_old env cl ident = getImages env cl ident"
  by (simp add: getImages_old_def getImages_def)

lemma paging_items: "getprop (paging data xs) ''items'' = Inr (JArr xs)"
  by (simp add: paging_def getprop_def nullish_def get_field_def)

lemma empty_paging_items: "getprop empty_paging ''items'' = Inr (JArr [])"
  by (simp add: empty_paging_def getprop_def nullish_def get_field_def)

text \<open>The parsed tracks of a response, or what the parsing threw.\<close>

lemma getTracks_results:
  "result (getTracks env cl ident options) =
     (case and_then (fetch env (tracks_request ident options)) (\<lambda>data.
           and_then (getprop data ''items'') (\<lambda>its.
           and_then (js_map (PlaylistTrack env) its) (\<lambda>ts. Inr (data, ts)))) of
        Inl e \<Rightarrow> or_default (handleError env e) empty_paging
      | Inr (data, ts) \<Rightarrow> Inr (paging data ts))"
  "result (getTracks_old env cl ident options) =
     (case and_then (fetch env (tracks_request ident options)) (\<lambda>data.
           and_then (getprop data ''items'') (\<lambda>its.
           and_then (js_map (PlaylistTrack env) its) (\<lambda>ts. Inr (data, ts)))) of
        Inl e \<Rightarrow> or_default (handleError env e) (JArr [])
      | Inr (data, ts) \<Rightarrow> Inr (JArr ts))"
  by (simp_all add: getTracks_def getTracks_old_def fetched_def try_catch_def and_then_def
      Let_def split: sum.splits)

lemma or_default_items:
  assumes "\<forall>v. h = Inr v \<longrightarrow> \<not> truthy v"
  shows "or_default h (JArr []) = and_then (or_default h empty_paging) (\<lambda>p. getprop p ''items'')"
  using assms by (cases h) (simp_all add: or_default_def and_then_def empty_paging_items)

text \<open>
  Claim C10. The two playlist managers of the sources agree where they overlap. Their
  \<open>get\<close> methods (and their \<open>getImages\<close> methods) give the same outcome for every
  id, force flag, market, cache and upstream behaviour: the same result, the same cache,
  the same request. Their \<open>getTracks\<close> methods send the same request and leave the
  cache alone; for a response that parses, the older one resolves with the array of
  tracks and the newer one with the paging object whose \<open>items\<close> is that array; and for
  every upstream behaviour, provided the shared handler never returns a truthy value
  (its declared result is \<open>null\<close>), the result of the older method is the \<open>items\<close>
  field of the result of the newer one, and both reject alike.
\<close>

theorem playlist_managers_agree:
  "get_old env cl ident force market = get env cl ident force market \<and>
   getImages_old env cl ident = getImages env cl ident \<and>
   requests (getTracks_old env cl ident options) = requests (getTracks env cl ident options) \<and>
   cache (getTracks_old env cl ident options) = cache (getTracks env cl ident options) \<and>
   (fetch env (tracks_request ident options) = Inr data \<and>
    getprop data ''items'' = Inr its \<and> js_map (PlaylistTrack env) its = Inr ts \<longrightarrow>
      result (getTracks_old env cl ident options) = Inr (JArr ts) \<and>
      result (getTracks env cl ident options) =
        Inr (JObj [(''limit'', field_of data ''limit''), (''offset'', field_of data ''offset''),
                   (''total'', field_of data ''total''), (''items'', JArr ts)])) \<and>
   ((\<forall>e v. handleError env e = Inr v \<longrightarrow> \<not> truthy v) \<longrightarrow>
      result (getTracks_old env cl ident options) =
        and_then (result (getTracks env cl ident options)) (\<lambda>p. getprop p ''items''))"
proof (intro conjI impI)
  show "get_old env cl ident force market = get env cl ident force market"
    by (rule get_old_eq)
  show "getImages_old env cl ident = getImages env cl ident"
    by (rule getImages_old_eq)
  show "requests (getTracks_old env cl ident options) =
        requests (getTracks env cl ident options)"
    by (simp add: getTracks_def getTracks_old_def fetched_def Let_def)
  show "cache (getTracks_old env cl ident options) = cache (getTracks env cl ident options)"
    by (simp add: getTracks_def getTracks_old_def fetched_def Let_def)
next
  assume a: "fetch env (tracks_request ident options) = Inr data \<and>
    getprop data ''items'' = Inr its \<and> js_map (PlaylistTrack env) its = Inr ts"
  then show "result (getTracks_old env cl ident options) = Inr (JArr ts)"
    by (simp add: getTracks_results and_then_def)
  from a show "result (getTracks env cl ident options) =
        Inr (JObj [(''limit'', field_of data ''limit''), (''offset'', field_of data ''offset''),
                   (''total'', field_of data ''total''), (''items'', JArr ts)])"
    by (simp add: getTracks_results and_then_def paging_def)
next
  assume h: "\<forall>e v. handleError env e = Inr v \<longrightarrow> \<not> truthy v"
  show "result (getTracks_old env cl ident options) =
        and_then (result (getTracks env cl ident options)) (\<lambda>p. getprop p ''items'')"
  proof (cases "and_then (fetch env (tracks_request ident options)) (\<lambda>data.
           and_then (getprop data ''items'') (\<lambda>its.
           and_then (js_map (PlaylistTrack env) its) (\<lambda>ts. Inr (data, ts))))")
    case (Inl e)
    from h have "\<forall>v. handleError env e = Inr v \<longrightarrow> \<not> truthy v" by blast
    from or_default_items [OF this] Inl show ?thesis
      by (simp add: getTracks_results)
  next
    case (Inr r)
    then show ?thesis
      by (cases r) (simp add: getTracks_results and_then_def paging_items)
  qed
qed

theorem playlist_managers_agree_witness:
  "fetch demo_env (tracks_request ''p1'' None) =
     Inr (JObj [(''items'', JArr [JStr ''t1'', JStr ''t2'']), (''limit'', JNum 100),
                (''offset'', JNum 0), (''total'', JNum 2)]) \<and>
   result (getTracks_old demo_env demo_client ''p1'' None) =
     Inr (JArr [JStr ''t1'', JStr ''t2'']) \<and>
   result (getTracks demo_env demo_client ''p1'' None) =
     Inr (JObj [(''limit'', JNum 100), (''offset'', JNum 0), (''total'', JNum 2),
                (''items'', JArr [JStr ''t1'', JStr ''t2''])]) \<and>
   handleError demo_env = (\<lambda>e. Inr JNull) \<and> \<not> truthy JNull \<and>
   fetch demo_env (tracks_request ''p9'' None) = Inl (JsError (JStr ''404'')) \<and>
   result (getTracks demo_env demo_client ''p9'' None) =
     Inr (JObj [(''limit'', JNum 0), (''offset'', JNum 0), (''total'', JNum 0),
                (''items'', JArr [])]) \<and>
   result (getTracks_old demo_env demo_client ''p9'' None) = Inr (JArr [])"
proof -
  let ?data = "JObj [(''items'', JArr [JStr ''t1'', JStr ''t2'']), (''limit'', JNum 100),
                (''offset'', JNum 0), (''total'', JNum 2)]"
  have f: "fetch demo_env (tracks_request ''p1'' None) = Inr ?data"
    by (simp add: demo_env_def demo_fetch_def tracks_request_def get_request_def)
  have i: "getprop ?data ''items'' = Inr (JArr [JStr ''t1'', JStr ''t2''])"
    by (simp add: getprop_def nullish_def get_field_def)
  have j: "js_map (PlaylistTrack demo_env) (JArr [JStr ''t1'', JStr ''t2'']) =
             Inr [JStr ''t1'', JStr ''t2'']"
    by (simp add: demo_env_def)
  have h: "handleError demo_env = (\<lambda>e. Inr JNull)"
    by (simp add: demo_env_def)
  then have h': "\<forall>e v. handleError demo_env e = Inr v \<longrightarrow> \<not> truthy v"
    by auto
  have f9: "fetch demo_env (tracks_request ''p9'' None) = Inl (JsError (JStr ''404''))"
    by (simp add: demo_env_def demo_fetch_def tracks_request_def get_request_def)
  have n: "result (getTracks demo_env demo_client ''p9'' None) =
     Inr (JObj [(''limit'', JNum 0), (''offset'', JNum 0), (''total'', JNum 0),
                (''items'', JArr [])])"
    using f9 h
    by (simp add: getTracks_def fetched_def try_catch_def and_then_def or_default_def
        empty_paging_def Let_def)
  note w1 = playlist_managers_agree [where env = demo_env and cl = demo_client
      and ident = "''p1''" and options = None and data = ?data
      and its = "JArr [JStr ''t1'', JStr ''t2'']" and ts = "[JStr ''t1'', JStr ''t2'']"]
  note w9 = playlist_managers_agree [where env = demo_env and cl = demo_client
      and ident = "''p9''" and options = None]
  have a: "result (getTracks_old demo_env demo_client ''p1'' None) =
     Inr (JArr [JStr ''t1'', JStr ''t2''])"
    using w1 f i j by blast
  have b: "result (getTracks demo_env demo_client ''p1'' None) =
     Inr (JObj [(''limit'', JNum 100), (''offset'', JNum 0), (''total'', JNum 2),
                (''items'', JArr [JStr ''t1'', JStr ''t2''])])"
    using w1 f i j by (simp add: get_field_def)
  have "result (getTracks_old demo_env demo_client ''p9'' None) =
     and_then (result (getTracks demo_env demo_client ''p9'' None)) (\<lambda>p. getprop p ''items'')"
    using w9 h' by blast
  then have c: "result (getTracks_old demo_env demo_client ''p9'' None) = Inr (JArr [])"
    by (simp add: n and_then_def getprop_def nullish_def get_field_def)
  have t: "\<not> truthy JNull" by simp
  from f a b h t f9 n c show ?thesis by (intro conjI)
qed

end
